theory Spec2Isabelle
  imports Main "HOL-Library.Word"
begin

section \<open>Machine integers and library functions of the Go runtime\<close>

text \<open>
  Go's \<open>int64\<close> and \<open>int32\<close> are words of that width, read as two's complement by
  \<open>sint\<close>; \<open>+\<close> and \<open>-\<close> wrap as they do in Go. Go's \<open>int\<close> (schema ids, slice
  lengths, batch ids) is only compared or incremented by a slice index here, and is an
  \<open>int\<close>.
\<close>

type_synonym int64 = "64 word"
type_synonym int32 = "32 word"

text \<open>\<open>fmt.Sprintf("%d", n)\<close>: the decimal digits of \<open>n\<close>, with a minus sign below 0.\<close>

definition digitChar :: "nat \<Rightarrow> char" where
  "digitChar d = ''0123456789'' ! (d mod 10)"

fun fmtNat :: "nat \<Rightarrow> string" where
  "fmtNat n = (if n < 10 then [digitChar n] else fmtNat (n div 10) @ [digitChar (n mod 10)])"

definition fmtInt :: "int \<Rightarrow> string" where
  "fmtInt i = (if i < 0 then CHR ''-'' # fmtNat (nat (- i)) else fmtNat (nat i))"

text \<open>
  \<open>path/filepath\<close> of the Go standard library, on a system whose separator is \<open>/\<close>.
  \<open>strings.Join(elems, "/")\<close> is \<open>joinSep\<close>; \<open>splitSep\<close> cuts a path at every
  separator. \<open>filepath.Clean\<close> drops empty and \<open>.\<close> elements, lets an inner \<open>..\<close>
  remove the element before it, drops a \<open>..\<close> that would climb above the root, and
  returns \<open>.\<close> for an empty result. \<open>filepath.Join\<close> ignores leading empty elements,
  joins the rest with the separator and cleans the result; it returns the empty string
  when every element is empty.
\<close>

fun joinSep :: "string list \<Rightarrow> string" where
  "joinSep [] = []"
| "joinSep [e] = e"
| "joinSep (e # es) = e @ CHR ''/'' # joinSep es"

fun splitSep :: "string \<Rightarrow> string list" where
  "splitSep [] = [[]]"
| "splitSep (c # cs) =
     (if c = CHR ''/'' then [] # splitSep cs
      else (case splitSep cs of [] \<Rightarrow> [[c]] | e # es \<Rightarrow> (c # e) # es))"

fun cleanElems :: "bool \<Rightarrow> string list \<Rightarrow> string list \<Rightarrow> string list" where
  "cleanElems rooted [] out = out"
| "cleanElems rooted (e # es) out =
     (if e = [] \<or> e = ''.'' then cleanElems rooted es out
      else if e = ''..'' then
        (if out \<noteq> [] \<and> last out \<noteq> ''..'' then cleanElems rooted es (butlast out)
         else if \<not> rooted then cleanElems rooted es (out @ [''..''])
         else cleanElems rooted es out)
      else cleanElems rooted es (out @ [e]))"

definition filepath_Clean :: "string \<Rightarrow> string" where
  "filepath_Clean path =
     (if path = [] then ''.''
      else let rooted = (hd path = CHR ''/'');
               out = cleanElems rooted (splitSep path) []
           in if rooted then CHR ''/'' # joinSep out
              else if out = [] then ''.'' else joinSep out)"

definition filepath_Join :: "string list \<Rightarrow> string" where
  "filepath_Join elem =
     (case dropWhile (\<lambda>e. e = []) elem of
        [] \<Rightarrow> []
      | es \<Rightarrow> filepath_Clean (joinSep es))"

section \<open>The batcher: object keys\<close>

text \<open>
  \<open>constructS3key\<close> (pkg/redshiftbatcher). The source reads the mask file version from
  the process configuration (\<open>viper.GetString("batcher.maskFileVersion")\<close>); here it is
  the first argument.
\<close>

definition s3FileName :: "int64 \<Rightarrow> int32 \<Rightarrow> string" where
  "s3FileName offset partn =
     fmtInt (sint offset) @ ''_offset_'' @ fmtInt (sint partn) @ ''_partition.json.gz''"

definition constructS3key ::
  "string \<Rightarrow> string \<Rightarrow> string \<Rightarrow> string \<Rightarrow> int32 \<Rightarrow> int64 \<Rightarrow> string" where
  "constructS3key maskFileVersion s3ucketDir consumerGroupID topic partn offset =
     (let s3FileName = s3FileName offset partn
      in if maskFileVersion \<noteq> []
         then filepath_Join [s3ucketDir, consumerGroupID, topic, maskFileVersion, s3FileName]
         else filepath_Join [s3ucketDir, consumerGroupID, topic, s3FileName])"

section \<open>The batcher: records, responses and collaborators\<close>

text \<open>
  A decoded record (\<open>serializer.Message\<close>). The buffers hold pointers to records; the
  batcher dereferences every one of them, so a buffer is a list of records. The value is
  the \<open>map[string]*string\<close> the transformer leaves behind, as an association list; the
  mask descriptions are opaque to the batcher and a string stands for each.
\<close>

datatype operation = OperationCreate | OperationUpdate | OperationDelete | OperationOther string

type_synonym MaskInfo = string
type_synonym ExtraMaskInfo = string

record message =
  Topic :: string
  Partition :: int32
  Offset :: int64
  SchemaId :: int
  Operation :: operation
  Value :: "(string \<times> string option) list"
  Bytes :: int64
  MaskSchema :: "(string \<times> MaskInfo) list"
  ExtraMaskSchema :: "(string \<times> ExtraMaskInfo) list"

text \<open>
  Errors are values. \<open>ErrSaramaSessionContextDone\<close> is the sentinel of package kafka
  that \<open>Process\<close> compares against; the others are the \<open>fmt.Errorf\<close> sites of the
  batcher and of the realtime calculator (\<open>ErrLastOffset\<close>), each carrying what its
  format string prints; \<open>ErrExternal\<close> is an error of a collaborator handed on
  unchanged. A fatal log call (\<open>klog.Fatalf\<close>) ends the process.
\<close>

datatype error =
  ErrSaramaSessionContextDone
| ErrTransformSchema int string
| ErrSchemaIdMismatch string int int
| ErrTransformMessage string
| ErrMaskMessage string
| ErrMarshal
| ErrS3Write string
| ErrLastOffset string
| ErrExternal string

datatype fatal = FatalUnknownOperation | FatalCompress | FatalNoBatch

text \<open>The target-table descriptor (\<open>redshift.Table\<close>) is carried, never inspected.\<close>

datatype redshift_Table = Table string

text \<open>The arguments of \<open>loader.NewJob\<close>, in the order \<open>signalLoad\<close> passes them.\<close>

record job =
  upstreamTopic :: string
  jobStartOffset :: int64
  jobEndOffset :: int64
  csvDialect :: string
  s3Path :: string
  schemaId :: int
  schemaIdKey :: int
  jobMaskSchema :: "(string \<times> MaskInfo) list"
  jobExtraMaskSchema :: "(string \<times> ExtraMaskInfo) list"
  jobSkipMerge :: bool
  batchBytes :: int64
  jobCreateEvents :: int64
  jobUpdateEvents :: int64
  jobDeleteEvents :: int64

text \<open>
  \<open>S3Sink\<close> (pkg/s3sink): the uploader is the object-store client, a function from
  bucket, key and body to the error it returns.
\<close>

record S3Sink =
  uploader :: "string \<Rightarrow> string \<Rightarrow> string \<Rightarrow> string option"
  bucket :: string

definition GetKeyURI :: "S3Sink \<Rightarrow> string \<Rightarrow> string" where
  "GetKeyURI s key = ''s3://'' @ bucket s @ ''/'' @ key"

definition Upload :: "S3Sink \<Rightarrow> string \<Rightarrow> string \<Rightarrow> string option" where
  "Upload s key bodyBuf =
     (case uploader s (bucket s) key bodyBuf of
        Some e \<Rightarrow> Some e
      | None \<Rightarrow> None)"

text \<open>
  \<open>batchProcessor\<close>. The three fields whose names are used for arguments elsewhere carry
  the prefix \<open>b_\<close>. The collaborators are functions: the schema transformer's
  \<open>TransformValue\<close>, the two message transformers' \<open>Transform\<close> (which rewrite the
  record in place, so they return it), and the signal producer's \<open>Add\<close> (topic,
  schema id, key, job).
\<close>

record batchProcessor =
  b_topic :: string
  b_partition :: int32
  loaderTopicPrefix :: string
  b_consumerGroupID :: string
  autoCommit :: bool
  s3sink :: S3Sink
  s3BucketDir :: string
  messageTransformer :: "message \<Rightarrow> redshift_Table \<Rightarrow> string + message"
  schemaTransformer ::
    "string \<Rightarrow> int \<Rightarrow> int \<Rightarrow> (string \<times> MaskInfo) list \<Rightarrow> (string \<times> ExtraMaskInfo) list
      \<Rightarrow> string + redshift_Table"
  msgMasker :: "message \<Rightarrow> redshift_Table \<Rightarrow> string + message"
  maskMessages :: bool
  signaler :: "string \<Rightarrow> int \<Rightarrow> string \<Rightarrow> job \<Rightarrow> string option"
  maxConcurrency :: int
  loaderSchemaID :: int
  schemaIDKey :: int

record response =
  err :: "error option"
  batchID :: int
  batchSchemaID :: int
  batchSchemaTable :: redshift_Table
  skipMerge :: bool
  createEvents :: int64
  updateEvents :: int64
  deleteEvents :: int64
  s3Key :: string
  bodyBuf :: string
  startOffset :: int64
  endOffset :: int64
  messagesProcessed :: int
  maskSchema :: "(string \<times> MaskInfo) list"
  extraMaskSchema :: "(string \<times> ExtraMaskInfo) list"
  bytesProcessed :: int64

text \<open>
  What the batcher reads from outside its own state. The session context is observed at
  fixed places of the code; \<open>ctxDone\<close> says, for each place, whether the context is
  found cancelled there (at the two sends on the error channel: whether the \<open>select\<close>
  takes the cancellation branch).
\<close>

datatype checkpoint =
  AtBatch int
| AtMessage int int
| AtErrSend
| AtSignal int
| AtSignalErrSend int

record runtime =
  maskFileVersion :: string
  trimSpace :: "string \<Rightarrow> string"
  jsonMarshal :: "(string \<times> string option) list \<Rightarrow> string + string"
  gzipWrite :: "string \<Rightarrow> string + string"
  timeNowString :: "int \<Rightarrow> string"
  ctxDone :: "checkpoint \<Rightarrow> bool"

text \<open>What a round does to the outside: the session, the object store, the two channels.\<close>

datatype event =
  Uploaded string string
| Signalled string string job
| MarkOffset string int32 int64 string
| Commit
| ErrChanSend "error list"
| SignalerClose
| SetBytesProcessed int64
| SetMsgsProcessed int

section \<open>The batcher: one batch\<close>

definition ctxCancelled :: "runtime \<Rightarrow> checkpoint \<Rightarrow> error option" where
  "ctxCancelled rt cp = (if ctxDone rt cp then Some ErrSaramaSessionContextDone else None)"

definition handleShutdown :: "batchProcessor \<Rightarrow> event list" where
  "handleShutdown b = [SignalerClose]"

definition markOffset :: "batchProcessor \<Rightarrow> string \<Rightarrow> int32 \<Rightarrow> int64 \<Rightarrow> bool \<Rightarrow> event list" where
  "markOffset b topic partn offset autoCommitFlag =
     MarkOffset topic partn (offset + 1) [] #
     (if autoCommitFlag = False then [Commit] else [])"

definition signalLoad :: "runtime \<Rightarrow> batchProcessor \<Rightarrow> response \<Rightarrow> error option \<times> event list" where
  "signalLoad rt b resp =
     (let job = \<lparr> upstreamTopic = b_topic b,
                  jobStartOffset = startOffset resp,
                  jobEndOffset = endOffset resp,
                  csvDialect = '','',
                  s3Path = GetKeyURI (s3sink b) (s3Key resp),
                  schemaId = batchSchemaID resp,
                  schemaIdKey = schemaIDKey b,
                  jobMaskSchema = maskSchema resp,
                  jobExtraMaskSchema = extraMaskSchema resp,
                  jobSkipMerge = skipMerge resp,
                  batchBytes = bytesProcessed resp,
                  jobCreateEvents = createEvents resp,
                  jobUpdateEvents = updateEvents resp,
                  jobDeleteEvents = deleteEvents resp \<rparr>;
          key = timeNowString rt (batchID resp)
      in case signaler b (loaderTopicPrefix b @ b_topic b) (loaderSchemaID b) key job of
           Some e \<Rightarrow> (Some (ErrExternal e), [])
         | None \<Rightarrow> (None, [Signalled (loaderTopicPrefix b @ b_topic b) key job]))"

definition removeEmptyNullValues ::
  "runtime \<Rightarrow> (string \<times> string option) list \<Rightarrow> (string \<times> string option) list" where
  "removeEmptyNullValues rt val =
     filter (\<lambda>(cName, cVal). case cVal of None \<Rightarrow> False | Some v \<Rightarrow> trimSpace rt v \<noteq> []) val"

text \<open>
  \<open>processMessage\<close> returns the byte count and the error as the source does, and also
  the response and the record it rewrote through their pointers. It is written in the
  three steps of its body: \<open>lockSchema\<close> is the block under \<open>if resp.s3Key == ""\<close>,
  which fixes the schema id, the table, the key and the start offset of the batch (or
  returns the error of the schema transformer); the schema check follows in
  \<open>processMessage\<close> itself; \<open>writeMessage\<close> is the rest, from the message transformer
  to the end offset.
\<close>

definition lockSchema ::
  "runtime \<Rightarrow> batchProcessor \<Rightarrow> message \<Rightarrow> response \<Rightarrow> (error \<times> response) + response" where
  "lockSchema rt b message resp =
     (if s3Key resp = [] then
        (let resp1 = resp\<lparr>batchSchemaID := SchemaId message\<rparr>
         in case schemaTransformer b (b_topic b) (batchSchemaID resp1) (schemaIDKey b)
                   (maskSchema resp1) (extraMaskSchema resp1) of
              Inl e \<Rightarrow> Inl (ErrTransformSchema (batchSchemaID resp1) e, resp1)
            | Inr r \<Rightarrow>
                Inr (resp1\<lparr>batchSchemaTable := r,
                          s3Key := constructS3key (maskFileVersion rt) (s3BucketDir b)
                                     (b_consumerGroupID b) (Topic message)
                                     (Partition message) (Offset message),
                          startOffset := Offset message\<rparr>))
      else Inr resp)"

definition writeMessage ::
  "runtime \<Rightarrow> batchProcessor \<Rightarrow> message \<Rightarrow> response
    \<Rightarrow> (int64 \<times> error option) \<times> response \<times> message" where
  "writeMessage rt b message resp =
     (case messageTransformer b message (batchSchemaTable resp) of
        Inl e \<Rightarrow> ((0, Some (ErrTransformMessage e)), resp, message)
      | Inr message1 \<Rightarrow>
          (case (if maskMessages b then msgMasker b message1 (batchSchemaTable resp)
                 else Inr message1) of
             Inl e \<Rightarrow> ((0, Some (ErrMaskMessage e)), resp, message1)
           | Inr message2 \<Rightarrow>
               (let message3 = message2\<lparr>Value := removeEmptyNullValues rt (Value message2)\<rparr>
                in case jsonMarshal rt (Value message3) of
                     Inl e \<Rightarrow> ((0, Some ErrMarshal), resp, message3)
                   | Inr messageValueBytes \<Rightarrow>
                       (let resp3 = resp\<lparr>bodyBuf := bodyBuf resp @ messageValueBytes @ [CHR 0x0A]\<rparr>;
                            bytesProcessed1 = 0 + Bytes message3;
                            resp4 = (if maskMessages b \<and> length (maskSchema resp3) = 0
                                     then resp3\<lparr>maskSchema := MaskSchema message3\<rparr> else resp3);
                            resp5 = (if maskMessages b \<and> length (extraMaskSchema resp4) = 0
                                     then resp4\<lparr>extraMaskSchema := ExtraMaskSchema message3\<rparr>
                                     else resp4);
                            resp6 = resp5\<lparr>skipMerge := False, endOffset := Offset message3\<rparr>
                        in ((bytesProcessed1, None), resp6, message3)))))"

definition processMessage ::
  "runtime \<Rightarrow> batchProcessor \<Rightarrow> message \<Rightarrow> response \<Rightarrow> int
    \<Rightarrow> (int64 \<times> error option) \<times> response \<times> message" where
  "processMessage rt b message resp messageID =
     (case lockSchema rt b message resp of
        Inl (e, resp1) \<Rightarrow> ((0, Some e), resp1, message)
      | Inr resp2 \<Rightarrow>
          if batchSchemaID resp2 \<noteq> SchemaId message
          then ((0, Some (ErrSchemaIdMismatch (b_topic b) (batchSchemaID resp2) (SchemaId message))),
                resp2, message)
          else writeMessage rt b message resp2)"

text \<open>
  The loop of \<open>processMessages\<close>, with the index of the record and the running total.
  An unknown operation ends the process.
\<close>

fun processMessages_loop ::
  "runtime \<Rightarrow> batchProcessor \<Rightarrow> message list \<Rightarrow> int \<Rightarrow> int64 \<Rightarrow> response
    \<Rightarrow> fatal + ((int64 \<times> error option) \<times> response)" where
  "processMessages_loop rt b [] messageID totalBytesProcessed resp =
     Inr ((totalBytesProcessed, None), resp)"
| "processMessages_loop rt b (message # rest) messageID totalBytesProcessed resp =
     (if ctxDone rt (AtMessage (batchID resp) messageID)
      then Inr ((totalBytesProcessed, Some ErrSaramaSessionContextDone), resp)
      else
        (case processMessage rt b message resp messageID of
           ((bytesProcessed1, Some e), resp1, message1) \<Rightarrow> Inr ((totalBytesProcessed, Some e), resp1)
         | ((bytesProcessed1, None), resp1, message1) \<Rightarrow>
             (let total1 = totalBytesProcessed + bytesProcessed1
              in case Operation message1 of
                   OperationCreate \<Rightarrow>
                     processMessages_loop rt b rest (messageID + 1) total1
                       (resp1\<lparr>createEvents := createEvents resp1 + 1\<rparr>)
                 | OperationUpdate \<Rightarrow>
                     processMessages_loop rt b rest (messageID + 1) total1
                       (resp1\<lparr>updateEvents := updateEvents resp1 + 1\<rparr>)
                 | OperationDelete \<Rightarrow>
                     processMessages_loop rt b rest (messageID + 1) total1
                       (resp1\<lparr>deleteEvents := deleteEvents resp1 + 1\<rparr>)
                 | OperationOther s \<Rightarrow> Inl FatalUnknownOperation)))"

definition processMessages ::
  "runtime \<Rightarrow> batchProcessor \<Rightarrow> message list \<Rightarrow> response
    \<Rightarrow> fatal + ((int64 \<times> error option) \<times> response)" where
  "processMessages rt b msgBuf resp = processMessages_loop rt b msgBuf 0 0 resp"

text \<open>
  \<open>processBatch\<close>: the response as the goroutine leaves it and what it put in the object
  store, or the fatal exit.
\<close>

definition processBatch ::
  "runtime \<Rightarrow> batchProcessor \<Rightarrow> message list \<Rightarrow> response \<Rightarrow> fatal + (response \<times> event list)" where
  "processBatch rt b msgBuf resp =
     (case ctxCancelled rt (AtBatch (batchID resp)) of
        Some e \<Rightarrow> Inr (resp\<lparr>err := Some e\<rparr>, [])
      | None \<Rightarrow>
          (case processMessages rt b msgBuf resp of
             Inl f \<Rightarrow> Inl f
           | Inr ((n, Some e), resp1) \<Rightarrow> Inr (resp1\<lparr>bytesProcessed := n, err := Some e\<rparr>, [])
           | Inr ((n, None), resp1) \<Rightarrow>
               (let resp2 = resp1\<lparr>bytesProcessed := n\<rparr>
                in case gzipWrite rt (bodyBuf resp2) of
                     Inl e \<Rightarrow> Inl FatalCompress
                   | Inr gzBodyBuf \<Rightarrow>
                       (case Upload (s3sink b) (s3Key resp2) gzBodyBuf of
                          Some e \<Rightarrow> Inr (resp2\<lparr>err := Some (ErrS3Write e)\<rparr>, [])
                        | None \<Rightarrow>
                            Inr (resp2\<lparr>bodyBuf := [],
                                      messagesProcessed := int (length msgBuf)\<rparr>,
                                 [Uploaded (s3Key resp2) gzBodyBuf])))))"

section \<open>The batcher: one round of \<open>Process\<close>\<close>

text \<open>
  The inner loop of \<open>Process\<close> reads the buffers of a round. What its \<open>select\<close>
  receives is a list of channel events, in the order they are taken. The loop returns
  from \<open>Process\<close> on a cancelled session, leaves with the buffers read so far, or is
  still waiting when the list ends.
\<close>

datatype chanEvent = SessionDone | Recv "message list" | Tick

datatype drained = DrainReturn | Drained "message list list" "chanEvent list" | DrainWaiting

fun drain :: "batchProcessor \<Rightarrow> chanEvent list \<Rightarrow> message list list \<Rightarrow> drained" where
  "drain b [] msgBufs = DrainWaiting"
| "drain b (SessionDone # evs) msgBufs = DrainReturn"
| "drain b (Recv msgBuf # evs) msgBufs =
     (let msgBufs1 = msgBufs @ [msgBuf]
      in if int (length msgBufs1) = maxConcurrency b then Drained msgBufs1 evs
         else drain b evs msgBufs1)"
| "drain b (Tick # evs) msgBufs =
     (if length msgBufs > 0 then Drained msgBufs evs else drain b evs msgBufs)"

text \<open>The response a round creates for the buffer at index \<open>i\<close>.\<close>

definition newResponse :: "int \<Rightarrow> response" where
  "newResponse i =
     \<lparr> err = None, batchID = i + 1, batchSchemaID = - 1, batchSchemaTable = Table [],
       skipMerge = False, createEvents = 0, updateEvents = 0, deleteEvents = 0,
       s3Key = [], bodyBuf = [], startOffset = 0, endOffset = 0, messagesProcessed = 0,
       maskSchema = [], extraMaskSchema = [], bytesProcessed = 0 \<rparr>"

text \<open>
  The batches of a round run as goroutines, one per buffer and each on a response of
  its own, and \<open>wg.Wait\<close> joins them before anything else happens. The responses do
  not depend on how the goroutines interleave; the uploads are listed in the order of
  the buffers. A fatal exit in one batch ends the process.
\<close>

fun startBatches ::
  "runtime \<Rightarrow> batchProcessor \<Rightarrow> message list list \<Rightarrow> int
    \<Rightarrow> response list \<times> event list \<times> fatal option" where
  "startBatches rt b [] i = ([], [], None)"
| "startBatches rt b (msgBuf # rest) i =
     (case processBatch rt b msgBuf (newResponse i) of
        Inl f \<Rightarrow> ([], [], Some f)
      | Inr (resp, evs) \<Rightarrow>
          (case startBatches rt b rest (i + 1) of
             (responses, evs1, f) \<Rightarrow> (resp # responses, evs @ evs1, f)))"

text \<open>
  The loop over the responses after the join: the totals, the errors collected by
  \<open>multierror.Append\<close>, and whether the loop returned on the cancellation sentinel.
\<close>

fun collectErrors ::
  "response list \<Rightarrow> int64 \<Rightarrow> int \<Rightarrow> error list \<Rightarrow> bool \<times> int64 \<times> int \<times> error list" where
  "collectErrors [] totalBytesProcessed totalMessagesProcessed errors =
     (False, totalBytesProcessed, totalMessagesProcessed, errors)"
| "collectErrors (resp # rest) totalBytesProcessed totalMessagesProcessed errors =
     (let total1 = totalBytesProcessed + bytesProcessed resp;
          msgs1 = totalMessagesProcessed + messagesProcessed resp
      in case err resp of
           None \<Rightarrow> collectErrors rest total1 msgs1 errors
         | Some e \<Rightarrow>
             if e = ErrSaramaSessionContextDone then (True, total1, msgs1, errors)
             else collectErrors rest total1 msgs1 (errors @ [e]))"

text \<open>
  The loop that signals the loader: the events it caused and whether it ran to its end
  (it returns from \<open>Process\<close> otherwise).
\<close>

fun signalAll :: "runtime \<Rightarrow> batchProcessor \<Rightarrow> response list \<Rightarrow> event list \<times> bool" where
  "signalAll rt b [] = ([], True)"
| "signalAll rt b (resp # rest) =
     (if ctxDone rt (AtSignal (batchID resp)) then ([], False)
      else
        (case signalLoad rt b resp of
           (Some e, evs) \<Rightarrow>
             if ctxDone rt (AtSignalErrSend (batchID resp)) then (evs, False)
             else (evs @ [ErrChanSend [e]] @ handleShutdown b, False)
         | (None, evs) \<Rightarrow>
             (case signalAll rt b rest of (evs1, finished) \<Rightarrow> (evs @ evs1, finished))))"

datatype outcome = Exited fatal | Returned | NextRound

text \<open>
  The body of the outer loop of \<open>Process\<close>, from the buffers read to the end of the
  round: how the round ends and what it did.
\<close>

definition Process_round ::
  "runtime \<Rightarrow> batchProcessor \<Rightarrow> message list list \<Rightarrow> outcome \<times> event list" where
  "Process_round rt b msgBufs =
     (case startBatches rt b msgBufs 0 of
        (responses, uploads, Some f) \<Rightarrow> (Exited f, uploads)
      | (responses, uploads, None) \<Rightarrow>
          if length responses = 0 then (Exited FatalNoBatch, uploads)
          else
            (case collectErrors responses 0 0 [] of
               (True, totalBytesProcessed, totalMessagesProcessed, errors) \<Rightarrow> (Returned, uploads)
             | (False, totalBytesProcessed, totalMessagesProcessed, errors) \<Rightarrow>
                 if errors \<noteq> [] then
                   (if ctxDone rt AtErrSend then (Returned, uploads @ handleShutdown b)
                    else (Returned, uploads @ handleShutdown b @ [ErrChanSend errors]))
                 else
                   (case signalAll rt b responses of
                      (signals, False) \<Rightarrow> (Returned, uploads @ signals)
                    | (signals, True) \<Rightarrow>
                        (let first = hd responses;
                             lastResp = last responses
                         in (NextRound,
                             uploads @ signals @
                             markOffset b (b_topic b) 0 (endOffset lastResp) (autoCommit b) @
                             [SetBytesProcessed totalBytesProcessed,
                              SetMsgsProcessed totalMessagesProcessed])))))"

section \<open>The realtime calculator\<close>

text \<open>
  The parts of the sink object (\<open>tipocav1.RedshiftSink\<close>) the calculator reads and
  writes. A nil pointer is \<open>None\<close>; a nil map is \<open>None\<close> where the source tests for it.
\<close>

record tipocav1_ReleaseCondition =
  MaxBatcherLag :: "int64 option"
  MaxLoaderLag :: "int64 option"

record tipocav1_Group =
  ID :: string
  LoaderCurrentOffset :: "int64 option"

record RedshiftSinkSpec =
  ReleaseCondition :: "tipocav1_ReleaseCondition option"
  TopicReleaseCondition :: "(string \<rightharpoonup> tipocav1_ReleaseCondition) option"
  KafkaLoaderTopicPrefix :: string

record RedshiftSinkStatus =
  TopicGroup :: "(string \<rightharpoonup> tipocav1_Group) option"

record RedshiftSink =
  Name :: string
  Namespace :: string
  Spec :: RedshiftSinkSpec
  Status :: RedshiftSinkStatus

text \<open>The bus client (\<open>kafka.Watcher\<close>): each query returns its error or its value.\<close>

record Watcher =
  Topics :: "string + string list"
  LastOffset :: "string \<Rightarrow> int32 \<Rightarrow> string + int64"
  CurrentOffset :: "string \<Rightarrow> string \<Rightarrow> int32 \<Rightarrow> string + int64"

record topicLast =
  tl_topic :: string
  tl_last :: int64

record offsetPosition =
  op_last :: "int64 option"
  op_current :: "int64 option"

record topicRealtimeInfo =
  lastUpdate :: "int64 option"
  batcher :: "offsetPosition option"
  loader :: "offsetPosition option"
  batcherRealtime :: bool
  loaderRealtime :: bool

record realtimeCalculator =
  rsk :: RedshiftSink
  watcher :: Watcher
  topicGroups :: "string \<rightharpoonup> tipocav1_Group"
  cache :: "string \<rightharpoonup> topicRealtimeInfo"
  batchersRealtime :: "string list"
  loadersRealtime :: "string list"
  batchersLast :: "topicLast list"
  loadersLast :: "topicLast list"

text \<open>
  What one iteration of \<open>calculate\<close> reads from the clock and the random source:
  \<open>rand.Intn(120)\<close>, and \<open>time.Now().UnixNano()\<close> in the cache probe, in
  \<open>fetchRealtimeInfo\<close> and in the loop body.
\<close>

record tick =
  randIntn :: int
  nowCache :: int64
  nowFetch :: int64
  nowLoop :: int64

text \<open>
  Modelled from the spec: \<open>cacheValid\<close> is not among the sources. The spec: a cache
  entry is valid for the drawn interval from \<open>lastUpdate\<close>. The validity is a
  \<open>time.Duration\<close> (nanoseconds), the two times are read as signed nanosecond counts,
  and an entry without a \<open>lastUpdate\<close> is not valid.
\<close>

definition cacheValid :: "int64 \<Rightarrow> int64 option \<Rightarrow> int64 \<Rightarrow> bool" where
  "cacheValid validity lastCachedTime now =
     (case lastCachedTime of
        None \<Rightarrow> False
      | Some t \<Rightarrow> sint now - sint t < sint validity)"

text \<open>
  Modelled from the spec: \<open>consumerGroupID\<close> is not among the sources. The spec's naming
  convention is \<open>{sinkName}-{sinkNamespace}-{groupID}{-batcher|-loader}\<close>.
\<close>

definition consumerGroupID :: "string \<Rightarrow> string \<Rightarrow> string \<Rightarrow> string \<Rightarrow> string" where
  "consumerGroupID rskName rskNamespace groupID suffix =
     rskName @ ''-'' @ rskNamespace @ ''-'' @ groupID @ suffix"

text \<open>
  Modelled from the spec: \<open>toMap\<close> is not among the sources. \<open>calculate\<close> uses its result
  only to ask whether a topic is in the list.
\<close>

definition toMap :: "string list \<Rightarrow> (string \<rightharpoonup> bool)" where
  "toMap xs = map_of (map (\<lambda>t. (t, True)) xs)"

text \<open>
  Modelled from the spec: \<open>updateTopicGroup\<close> is not among the sources. The spec: the
  queried loader offset is persisted to the TopicGroup of the topic, in the status of the
  sink object.
\<close>

definition updateTopicGroup :: "RedshiftSink \<Rightarrow> string \<Rightarrow> tipocav1_Group \<Rightarrow> RedshiftSink" where
  "updateTopicGroup sink topic grp =
     sink\<lparr>Status := (Status sink)\<lparr>TopicGroup :=
       Some ((case TopicGroup (Status sink) of None \<Rightarrow> Map.empty | Some m \<Rightarrow> m)(topic \<mapsto> grp))\<rparr>\<rparr>"

text \<open>
  \<open>maxLag\<close>. The two default constants are declared outside the sources and are the
  first two arguments.
\<close>

definition maxLag :: "int64 \<Rightarrow> int64 \<Rightarrow> realtimeCalculator \<Rightarrow> string \<Rightarrow> int64 \<times> int64" where
  "maxLag DefaultMaxBatcherLag DefautMaxLoaderLag r topic =
     (case ReleaseCondition (Spec (rsk r)) of
        None \<Rightarrow> (DefaultMaxBatcherLag, DefautMaxLoaderLag)
      | Some rc \<Rightarrow>
          (let maxBatcherLag0 = (case MaxBatcherLag rc of Some v \<Rightarrow> v | None \<Rightarrow> 0);
               maxLoaderLag0 = (case MaxLoaderLag rc of Some v \<Rightarrow> v | None \<Rightarrow> 0)
           in case TopicReleaseCondition (Spec (rsk r)) of
                None \<Rightarrow> (maxBatcherLag0, maxLoaderLag0)
              | Some m \<Rightarrow>
                  (case m topic of
                     None \<Rightarrow> (maxBatcherLag0, maxLoaderLag0)
                   | Some d \<Rightarrow>
                       ((case MaxBatcherLag d of Some v \<Rightarrow> v | None \<Rightarrow> maxBatcherLag0),
                        (case MaxLoaderLag d of Some v \<Rightarrow> v | None \<Rightarrow> maxLoaderLag0)))))"

definition emptyInfo :: topicRealtimeInfo where
  "emptyInfo = \<lparr> lastUpdate = None, batcher = None, loader = None,
                 batcherRealtime = False, loaderRealtime = False \<rparr>"

definition time_Second :: int64 where
  "time_Second = 1000000000"

definition fetchRealtimeCache ::
  "realtimeCalculator \<Rightarrow> tick \<Rightarrow> string \<Rightarrow> topicRealtimeInfo \<times> bool" where
  "fetchRealtimeCache r tk topic =
     (case cache r topic of
        None \<Rightarrow> (emptyInfo, False)
      | Some info \<Rightarrow>
          (let validSec = randIntn tk + 120
           in if cacheValid (time_Second * word_of_int validSec) (lastUpdate info) (nowCache tk)
              then (info, True)
              else (emptyInfo, False)))"

text \<open>
  \<open>fetchRealtimeInfo\<close> returns the info and the error, and the sink object, which it
  updates through its pointer.
\<close>

definition fetchRealtimeInfo ::
  "realtimeCalculator \<Rightarrow> tick \<Rightarrow> string \<Rightarrow> string option \<Rightarrow> tipocav1_Group
    \<Rightarrow> (topicRealtimeInfo \<times> error option) \<times> RedshiftSink" where
  "fetchRealtimeInfo r tk topic loaderTopic grp =
     (let now = nowFetch tk;
          info = \<lparr> lastUpdate = Some now,
                   batcher = Some \<lparr> op_last = None, op_current = None \<rparr>,
                   loader = Some \<lparr> op_last = None, op_current = None \<rparr>,
                   batcherRealtime = False, loaderRealtime = False \<rparr>
      in case LastOffset (watcher r) topic 0 of
           Inl e \<Rightarrow> ((info, Some (ErrLastOffset topic)), rsk r)
         | Inr batcherLast \<Rightarrow>
             (let info1 = info\<lparr>batcher := Some \<lparr> op_last = Some batcherLast, op_current = None \<rparr>\<rparr>
              in case CurrentOffset (watcher r)
                        (consumerGroupID (Name (rsk r)) (Namespace (rsk r)) (ID grp) ''-batcher'')
                        topic 0 of
                   Inl e \<Rightarrow> ((info1, Some (ErrExternal e)), rsk r)
                 | Inr batcherCurrent \<Rightarrow>
                     if batcherCurrent = - 1 then ((info1, None), rsk r)
                     else
                       (let info2 = info1\<lparr>batcher :=
                              Some \<lparr> op_last = Some batcherLast, op_current = Some batcherCurrent \<rparr>\<rparr>
                        in case loaderTopic of
                             None \<Rightarrow> ((info2, None), rsk r)
                           | Some ltopic \<Rightarrow>
                               (case LastOffset (watcher r) ltopic 0 of
                                  Inl e \<Rightarrow> ((info2, Some (ErrLastOffset ltopic)), rsk r)
                                | Inr loaderLast \<Rightarrow>
                                    (let info3 = info2\<lparr>loader :=
                                           Some \<lparr> op_last = Some loaderLast, op_current = None \<rparr>\<rparr>
                                     in case CurrentOffset (watcher r)
                                               (consumerGroupID (Name (rsk r)) (Namespace (rsk r))
                                                  (ID grp) ''-loader'')
                                               ltopic 0 of
                                          Inl e \<Rightarrow> ((info3, Some (ErrExternal e)), rsk r)
                                        | Inr loaderCurrent \<Rightarrow>
                                            if loaderCurrent = - 1 then
                                              (case LoaderCurrentOffset grp of
                                                 None \<Rightarrow> ((info3, None), rsk r)
                                               | Some persisted \<Rightarrow>
                                                   ((info3\<lparr>loader :=
                                                       Some \<lparr> op_last = Some loaderLast,
                                                              op_current = Some persisted \<rparr>\<rparr>,
                                                     None), rsk r))
                                            else
                                              (let grp1 = grp\<lparr>LoaderCurrentOffset := Some loaderCurrent\<rparr>;
                                                   rsk1 = updateTopicGroup (rsk r) topic grp1
                                               in ((info3\<lparr>loader :=
                                                      Some \<lparr> op_last = Some loaderLast,
                                                             op_current = Some loaderCurrent \<rparr>\<rparr>,
                                                    None), rsk1)))))))"

text \<open>
  The two halves of "compute realtime" in the loop body of \<open>calculate\<close>: each takes
  the info and the calculator and returns them as the code leaves them.
\<close>

definition batcherSide ::
  "int64 \<Rightarrow> string \<Rightarrow> topicRealtimeInfo \<Rightarrow> realtimeCalculator
    \<Rightarrow> topicRealtimeInfo \<times> realtimeCalculator" where
  "batcherSide maxBatcherLag topic info r =
     (case batcher info of
        None \<Rightarrow> (info, r)
      | Some pos \<Rightarrow>
          (case op_last pos of
             None \<Rightarrow> (info, r)
           | Some lastOff \<Rightarrow>
               (let (info1, r1) =
                      (case op_current pos of
                         None \<Rightarrow> (info, r)
                       | Some currentOff \<Rightarrow>
                           (let lag = lastOff - currentOff
                            in if word_sle lag maxBatcherLag
                               then (info\<lparr>batcherRealtime := True\<rparr>,
                                     r\<lparr>batchersRealtime := batchersRealtime r @ [topic]\<rparr>)
                               else (info, r)))
                in (info1,
                    r1\<lparr>batchersLast := batchersLast r1 @
                         [\<lparr> tl_topic = topic, tl_last = lastOff \<rparr>]\<rparr>))))"

definition loaderSide ::
  "int64 \<Rightarrow> string \<Rightarrow> topicRealtimeInfo \<Rightarrow> realtimeCalculator
    \<Rightarrow> topicRealtimeInfo \<times> realtimeCalculator" where
  "loaderSide maxLoaderLag ltopic info r =
     (case loader info of
        None \<Rightarrow> (info, r)
      | Some pos \<Rightarrow>
          (case op_last pos of
             None \<Rightarrow> (info, r)
           | Some lastOff \<Rightarrow>
               (let (info1, r1) =
                      (case op_current pos of
                         None \<Rightarrow> (info, r)
                       | Some currentOff \<Rightarrow>
                           (let lag = lastOff - currentOff
                            in if word_sle lag maxLoaderLag
                               then (info\<lparr>loaderRealtime := True\<rparr>,
                                     r\<lparr>loadersRealtime := loadersRealtime r @ [ltopic]\<rparr>)
                               else (info, r)))
                in (info1,
                    r1\<lparr>loadersLast := loadersLast r1 @
                         [\<lparr> tl_topic = ltopic, tl_last = lastOff \<rparr>]\<rparr>))))"

text \<open>
  The lookup of the loader topic among the topics of the bus, in the loop body of
  \<open>calculate\<close>: the pointer \<open>loaderTopic\<close> stays nil when the topic is absent.
\<close>

definition findLoaderTopic :: "(string \<rightharpoonup> bool) \<Rightarrow> string \<Rightarrow> string option" where
  "findLoaderTopic allTopicsMap ltopic =
     (if allTopicsMap ltopic \<noteq> None then Some ltopic else None)"

text \<open>
  The body of the loop of \<open>calculate\<close> for one reloading topic, on the calculator and
  the list \<open>realtimeTopics\<close> built so far.
\<close>

definition calculateTopic ::
  "int64 \<Rightarrow> int64 \<Rightarrow> (string \<rightharpoonup> bool) \<Rightarrow> (string \<rightharpoonup> bool) \<Rightarrow> tick \<Rightarrow> string
    \<Rightarrow> realtimeCalculator \<times> string list \<Rightarrow> realtimeCalculator \<times> string list" where
  "calculateTopic DefaultMaxBatcherLag DefautMaxLoaderLag allTopicsMap current tk topic st =
     (case st of (r, realtimeTopics) \<Rightarrow>
        (case topicGroups r topic of
           None \<Rightarrow> (r, realtimeTopics)
         | Some grp \<Rightarrow>
             (let ltopic = KafkaLoaderTopicPrefix (Spec (rsk r)) @ ID grp @ ''-'' @ topic;
                  loaderTopic = findLoaderTopic allTopicsMap ltopic;
                  now = nowLoop tk;
                  (cached, hit) = fetchRealtimeCache r tk topic;
                  ((info, fetchErr), rsk1) =
                    (if \<not> hit then fetchRealtimeInfo r tk topic loaderTopic grp
                     else ((cached, None), rsk r));
                  r1 = r\<lparr>rsk := rsk1\<rparr>
              in if \<not> hit \<and> fetchErr \<noteq> None \<and> current topic \<noteq> None
                 then
                   (r1\<lparr>cache := (cache r1)(topic \<mapsto>
                          \<lparr> lastUpdate = Some now, batcher = None, loader = None,
                            batcherRealtime = True, loaderRealtime = True \<rparr>),
                        batchersRealtime := batchersRealtime r1 @ [topic],
                        loadersRealtime := loadersRealtime r1 @ [ltopic]\<rparr>,
                    realtimeTopics @ [topic])
                 else
                   (let (maxBatcherLag, maxLoaderLag) =
                          maxLag DefaultMaxBatcherLag DefautMaxLoaderLag r1 topic;
                        (info1, r2) = batcherSide maxBatcherLag topic info r1;
                        (info2, r3) = loaderSide maxLoaderLag ltopic info1 r2;
                        realtimeTopics1 =
                          (if batcherRealtime info2 \<and> loaderRealtime info2
                           then realtimeTopics @ [topic] else realtimeTopics);
                        info3 = (if \<not> hit then info2\<lparr>lastUpdate := Some now\<rparr> else info2)
                    in (r3\<lparr>cache := (cache r3)(topic \<mapsto> info3)\<rparr>, realtimeTopics1)))))"

fun calculate_loop ::
  "int64 \<Rightarrow> int64 \<Rightarrow> (string \<rightharpoonup> bool) \<Rightarrow> (string \<rightharpoonup> bool) \<Rightarrow> (nat \<Rightarrow> tick) \<Rightarrow> nat
    \<Rightarrow> string list \<Rightarrow> realtimeCalculator \<times> string list \<Rightarrow> realtimeCalculator \<times> string list" where
  "calculate_loop dB dL allTopicsMap current ticks i [] st = st"
| "calculate_loop dB dL allTopicsMap current ticks i (topic # rest) st =
     calculate_loop dB dL allTopicsMap current ticks (Suc i) rest
       (calculateTopic dB dL allTopicsMap current (ticks i) topic st)"

text \<open>
  \<open>calculate\<close>: the returned list and the calculator as it is left. The iteration at
  index \<open>i\<close> of \<open>reloading\<close> reads the clock and the random source as \<open>ticks i\<close>.
\<close>

definition calculate ::
  "int64 \<Rightarrow> int64 \<Rightarrow> realtimeCalculator \<Rightarrow> (nat \<Rightarrow> tick) \<Rightarrow> string list \<Rightarrow> string list
    \<Rightarrow> string list \<times> realtimeCalculator" where
  "calculate DefaultMaxBatcherLag DefautMaxLoaderLag r ticks reloading currentRealtime =
     (if length reloading = 0 then (currentRealtime, r)
      else
        (let realtimeTopics = [];
             current = toMap currentRealtime
         in case Topics (watcher r) of
              Inl e \<Rightarrow> (currentRealtime, r)
            | Inr allTopics \<Rightarrow>
                (let allTopicsMap = toMap allTopics
                 in case calculate_loop DefaultMaxBatcherLag DefautMaxLoaderLag allTopicsMap
                           current ticks 0 reloading (r, realtimeTopics) of
                      (r1, realtimeTopics1) \<Rightarrow> (realtimeTopics1, r1))))"

section \<open>The topic manager's consume loop\<close>

text \<open>
  One pass of the loop of \<open>Manager.Consume\<close> reads the topic list as \<open>SyncTopics\<close> left
  it, the error the consumer group's blocking \<open>Consume\<close> returns, and whether the
  context is cancelled after it. The loop has no bound of its own; it is run over the
  list of what its passes read, and is at its top again (\<open>ManagerLooping\<close>) when the
  list ends. \<open>klog.Fatalf\<close> ends the process.
\<close>

record consumePass =
  topicsNow :: "string list"
  consumeErr :: "string option"
  ctxErr :: bool

datatype managerEvent = Sleep5 | ConsumeCall "string list"

datatype managerOutcome = ManagerFatal string | ManagerReturned | ManagerLooping

fun Manager_Consume :: "consumePass list \<Rightarrow> managerEvent list \<times> managerOutcome" where
  "Manager_Consume [] = ([], ManagerLooping)"
| "Manager_Consume (p # rest) =
     (let topics = topicsNow p
      in if length topics = 0
         then (case Manager_Consume rest of (evs, out) \<Rightarrow> (Sleep5 # evs, out))
         else
           (case consumeErr p of
              Some e \<Rightarrow> ([ConsumeCall topics], ManagerFatal e)
            | None \<Rightarrow>
                if ctxErr p then ([ConsumeCall topics], ManagerReturned)
                else (case Manager_Consume rest of
                        (evs, out) \<Rightarrow> (ConsumeCall topics # evs, out))))"

section \<open>The batcher binary: registering the consumer groups\<close>

text \<open>
  A Go map variable is \<open>None\<close> while it is nil and \<open>Some m\<close> once made. Reading a nil
  map finds nothing; assigning to an entry of a nil map panics.
\<close>

datatype runFault = OsExit int | PanicNilMapAssign

definition mapAssign :: "('k \<rightharpoonup> 'v) option \<Rightarrow> 'k \<Rightarrow> 'v \<Rightarrow> runFault + ('k \<rightharpoonup> 'v) option" where
  "mapAssign m k v =
     (case m of
        None \<Rightarrow> Inl PanicNilMapAssign
      | Some f \<Rightarrow> Inr (Some (f(k \<mapsto> v))))"

record groupConfig =
  GroupID :: string
  TopicRegexes :: string

text \<open>
  The state of \<open>run\<close> while it registers the groups: the map \<open>consumerGroups\<close>, the
  number of ready channels appended, and the groups for which a manager was started.
  The consumer-group client is whatever \<open>consumer.NewConsumerGroup\<close> returns.
\<close>

record 'cg runState =
  consumerGroups :: "(string \<rightharpoonup> 'cg) option"
  consumersReady :: nat
  managersStarted :: "string list"

fun registerGroups ::
  "(groupConfig \<Rightarrow> string + 'cg) \<Rightarrow> groupConfig list \<Rightarrow> 'cg runState
    \<Rightarrow> runFault + 'cg runState" where
  "registerGroups NewConsumerGroup [] st = Inr st"
| "registerGroups NewConsumerGroup (gc # rest) st =
     (case NewConsumerGroup gc of
        Inl e \<Rightarrow> Inl (OsExit 1)
      | Inr consumerGroup \<Rightarrow>
          (let st1 = st\<lparr>consumersReady := consumersReady st + 1\<rparr>;
               groupID = GroupID gc
           in case mapAssign (consumerGroups st1) groupID consumerGroup of
                Inl fault \<Rightarrow> Inl fault
              | Inr m \<Rightarrow>
                  registerGroups NewConsumerGroup rest
                    (st1\<lparr>consumerGroups := m,
                         managersStarted := managersStarted st1 @ [groupID]\<rparr>)))"

text \<open>
  \<open>run\<close>, up to the end of the loop over the configured groups. \<open>consumerGroups\<close> is
  declared with \<open>var\<close> and never made, so the loop starts from the nil map.
\<close>

definition run_register ::
  "(string + groupConfig list) \<Rightarrow> (groupConfig \<Rightarrow> string + 'cg) \<Rightarrow> runFault + 'cg runState" where
  "run_register loadConfig NewConsumerGroup =
     (case loadConfig of
        Inl e \<Rightarrow> Inl (OsExit 1)
      | Inr configConsumerGroups \<Rightarrow>
          registerGroups NewConsumerGroup configConsumerGroups
            \<lparr> consumerGroups = None, consumersReady = 0, managersStarted = [] \<rparr>)"

section \<open>Notions used in the statements\<close>

text \<open>
  The key the specification writes for a batch:
  \<open>{bucketDir}/{consumerGroupID}/{topic}/[{maskVersion}/]{offset}_offset_{partition}_partition.json.gz\<close>,
  the segments put together as they are.
\<close>

definition s3KeyTemplate ::
  "string \<Rightarrow> string \<Rightarrow> string \<Rightarrow> string \<Rightarrow> int32 \<Rightarrow> int64 \<Rightarrow> string" where
  "s3KeyTemplate maskVersion bucketDir consumerGroup topic partn offset =
     bucketDir @ ''/'' @ consumerGroup @ ''/'' @ topic @ ''/'' @
     (if maskVersion \<noteq> [] then maskVersion @ ''/'' else []) @
     fmtInt (sint offset) @ ''_offset_'' @ fmtInt (sint partn) @ ''_partition.json.gz''"

text \<open>
  A plain path element is one that \<open>filepath.Clean\<close> leaves alone: not empty, not
  \<open>.\<close> or \<open>..\<close>, without a separator. A plain path is a non-empty path, absolute or
  relative, all of whose elements are plain.
\<close>

definition plainElem :: "string \<Rightarrow> bool" where
  "plainElem e = (e \<noteq> [] \<and> e \<noteq> ''.'' \<and> e \<noteq> ''..'' \<and> CHR ''/'' \<notin> set e)"

definition plainPath :: "string \<Rightarrow> bool" where
  "plainPath d =
     (d \<noteq> [] \<and> list_all plainElem (splitSep (if hd d = CHR ''/'' then tl d else d)))"

text \<open>The key \<open>processMessage\<close> builds from a record.\<close>

definition batchKey :: "runtime \<Rightarrow> batchProcessor \<Rightarrow> message \<Rightarrow> string" where
  "batchKey rt b m =
     constructS3key (maskFileVersion rt) (s3BucketDir b) (b_consumerGroupID b)
       (Topic m) (Partition m) (Offset m)"

text \<open>
  A transformer keeps the offset when the record it returns has the offset of the
  record it was given. A buffer has mixed schemas when a record after the first carries
  a schema id other than the first record's.
\<close>

definition keepsOffset :: "(message \<Rightarrow> redshift_Table \<Rightarrow> string + message) \<Rightarrow> bool" where
  "keepsOffset f = (\<forall>m tb m'. f m tb = Inr m' \<longrightarrow> Offset m' = Offset m)"

definition mixedSchema :: "message list \<Rightarrow> bool" where
  "mixedSchema msgBuf =
     (case msgBuf of
        [] \<Rightarrow> False
      | m0 # rest \<Rightarrow> list_ex (\<lambda>m. SchemaId m \<noteq> SchemaId m0) rest)"

text \<open>
  How the events of a round relate to its responses. The upload of a response is an
  object under the key of the response whose body the compressor returned and for which
  the object-store client, called with the bucket, that key and that body, returned no
  error. The signal of a response is a Load-Job on the loader topic, keyed by the clock
  string read for the batch, for which the signal producer, called with that topic, the
  loader schema id, that key and that job, returned no error; the job carries the topic,
  the offsets, the schema id and the byte count of the response and the URI of its key.
  A response is that of a buffer when \<open>processBatch\<close> on the buffer returned it.
\<close>

definition uploadOf :: "runtime \<Rightarrow> batchProcessor \<Rightarrow> response \<Rightarrow> event \<Rightarrow> bool" where
  "uploadOf rt b r ev =
     (\<exists>raw body. ev = Uploaded (s3Key r) body \<and> gzipWrite rt raw = Inr body \<and>
                 uploader (s3sink b) (bucket (s3sink b)) (s3Key r) body = None)"

definition signalOf :: "runtime \<Rightarrow> batchProcessor \<Rightarrow> response \<Rightarrow> event \<Rightarrow> bool" where
  "signalOf rt b r ev =
     (\<exists>key j. ev = Signalled (loaderTopicPrefix b @ b_topic b) key j \<and>
              key = timeNowString rt (batchID r) \<and>
              signaler b (loaderTopicPrefix b @ b_topic b) (loaderSchemaID b) key j = None \<and>
              upstreamTopic j = b_topic b \<and>
              jobStartOffset j = startOffset r \<and> jobEndOffset j = endOffset r \<and>
              s3Path j = GetKeyURI (s3sink b) (s3Key r) \<and>
              schemaId j = batchSchemaID r \<and> batchBytes j = bytesProcessed r)"

definition ranAs :: "runtime \<Rightarrow> batchProcessor \<Rightarrow> message list \<Rightarrow> response \<Rightarrow> bool" where
  "ranAs rt b msgBuf r = (\<exists>i evs. processBatch rt b msgBuf (newResponse i) = Inr (r, evs))"

fun marksOrCommits :: "event \<Rightarrow> bool" where
  "marksOrCommits (MarkOffset t p off meta) = True"
| "marksOrCommits Commit = True"
| "marksOrCommits ev = False"

text \<open>
  The processor, the surroundings and the records of the specification's scenarios:
  topic \<open>orders\<close>, auto-commit off, no masking, no mask version, collaborators that
  succeed, a session that is not cancelled. The marshaller writes \<open>{}\<close> for every
  value and the compressor hands the body on, which is enough to count the lines.
\<close>

definition scenario_rt :: runtime where
  "scenario_rt =
     \<lparr> maskFileVersion = [], trimSpace = (\<lambda>s. s), jsonMarshal = (\<lambda>v. Inr ''{}''),
       gzipWrite = (\<lambda>body. Inr body), timeNowString = (\<lambda>i. ''now''),
       ctxDone = (\<lambda>cp. False) \<rparr>"

definition scenario_b :: "int32 \<Rightarrow> batchProcessor" where
  "scenario_b partn =
     \<lparr> b_topic = ''orders'', b_partition = partn, loaderTopicPrefix = ''loader-'',
       b_consumerGroupID = ''g1-batcher'', autoCommit = False,
       s3sink = \<lparr> uploader = (\<lambda>bkt key body. None), bucket = ''bucket'' \<rparr>,
       s3BucketDir = ''bucketDir'',
       messageTransformer = (\<lambda>m tb. Inr m),
       schemaTransformer = (\<lambda>t sid kid ms ems. Inr (Table ''orders'')),
       msgMasker = (\<lambda>m tb. Inr m), maskMessages = False,
       signaler = (\<lambda>t sid key j. None), maxConcurrency = 1,
       loaderSchemaID = 1, schemaIDKey = 2 \<rparr>"

definition scenario_record :: "int32 \<Rightarrow> int64 \<Rightarrow> int \<Rightarrow> message" where
  "scenario_record partn off sid =
     \<lparr> Topic = ''orders'', Partition = partn, Offset = off, SchemaId = sid,
       Operation = OperationCreate, Value = [], Bytes = 10,
       MaskSchema = [], ExtraMaskSchema = [] \<rparr>"

text \<open>
  What the round of the first scenario (two records, offsets 100 and 101) does: one
  object with two lines, one Load-Job for the offsets 100 to 101, the mark at 102 and
  the commit.
\<close>

definition scenario_happy_trace :: "event list" where
  "scenario_happy_trace =
     [Uploaded ''bucketDir/g1-batcher/orders/100_offset_0_partition.json.gz''
        (''{}'' @ [CHR 0x0A] @ ''{}'' @ [CHR 0x0A]),
      Signalled ''loader-orders'' ''now''
        \<lparr> upstreamTopic = ''orders'', jobStartOffset = 100, jobEndOffset = 101, csvDialect = '','',
          s3Path = ''s3://bucket/bucketDir/g1-batcher/orders/100_offset_0_partition.json.gz'',
          schemaId = 7, schemaIdKey = 2, jobMaskSchema = [], jobExtraMaskSchema = [],
          jobSkipMerge = False, batchBytes = 20, jobCreateEvents = 2, jobUpdateEvents = 0,
          jobDeleteEvents = 0 \<rparr>,
      MarkOffset ''orders'' 0 102 [], Commit, SetBytesProcessed 20, SetMsgsProcessed 2]"

text \<open>
  The precedence the specification gives for the two lag limits, each on its own: the
  topic's release condition if it has the value, else the global release condition if
  it has the value, else the default.
\<close>

definition specMaxLag :: "int64 \<Rightarrow> int64 \<Rightarrow> realtimeCalculator \<Rightarrow> string \<Rightarrow> int64 \<times> int64" where
  "specMaxLag defaultBatcherLag defaultLoaderLag r topic =
     (let perTopic = (case TopicReleaseCondition (Spec (rsk r)) of
                        None \<Rightarrow> None
                      | Some m \<Rightarrow> m topic);
          global = ReleaseCondition (Spec (rsk r));
          resolve = (\<lambda>field dflt.
            (case (case perTopic of None \<Rightarrow> None | Some d \<Rightarrow> field d) of
               Some v \<Rightarrow> v
             | None \<Rightarrow>
                 (case (case global of None \<Rightarrow> None | Some g \<Rightarrow> field g) of
                    Some v \<Rightarrow> v
                  | None \<Rightarrow> dflt)))
      in (resolve MaxBatcherLag defaultBatcherLag, resolve MaxLoaderLag defaultLoaderLag))"

text \<open>
  A sink object and a calculator for the scenarios of the realtime calculator: the
  release conditions, the bus, the topic groups and the cache are given, the lists of
  the calculator start empty.
\<close>

definition sinkWith ::
  "tipocav1_ReleaseCondition option \<Rightarrow> (string \<rightharpoonup> tipocav1_ReleaseCondition) option
    \<Rightarrow> RedshiftSink" where
  "sinkWith rc trc =
     \<lparr> Name = ''sink'', Namespace = ''ns'',
       Spec = \<lparr> ReleaseCondition = rc, TopicReleaseCondition = trc,
                KafkaLoaderTopicPrefix = ''loader-'' \<rparr>,
       Status = \<lparr> TopicGroup = None \<rparr> \<rparr>"

definition calculatorWith ::
  "RedshiftSink \<Rightarrow> Watcher \<Rightarrow> (string \<rightharpoonup> tipocav1_Group) \<Rightarrow> (string \<rightharpoonup> topicRealtimeInfo)
    \<Rightarrow> realtimeCalculator" where
  "calculatorWith sink w groups cch =
     \<lparr> rsk = sink, watcher = w, topicGroups = groups, cache = cch,
       batchersRealtime = [], loadersRealtime = [], batchersLast = [], loadersLast = [] \<rparr>"

text \<open>
  The processor of the first scenario with an object store that refuses the upload, and
  with a signal producer that refuses the Load-Job.
\<close>

definition scenario_b_upload_fails :: batchProcessor where
  "scenario_b_upload_fails =
     (scenario_b 0)\<lparr>s3sink := \<lparr> uploader = (\<lambda>bkt key body. Some ''access denied''),
                                 bucket = ''bucket'' \<rparr>\<rparr>"

definition scenario_b_signal_fails :: batchProcessor where
  "scenario_b_signal_fails =
     (scenario_b 0)\<lparr>signaler := (\<lambda>t sid key j. Some ''broker not available'')\<rparr>"

text \<open>
  The processor of the scenarios with a schema transformer that fails.
\<close>

definition scenario_b_registry_down :: batchProcessor where
  "scenario_b_registry_down =
     (scenario_b 0)\<lparr>schemaTransformer := (\<lambda>t sid kid ms ems. Inl ''registry unavailable'')\<rparr>"

text \<open>
  The bus of the scenarios: topic \<open>orders\<close> with last offset 1000 and the batcher
  group at 990, its loader topic with last offset 5050 and the loader group's current
  offset as given (an error, \<open>-1\<close> or an offset). The topic is in group \<open>reload\<close>
  with the persisted loader offset as given; both lag limits are 100.
\<close>

definition scenario_watcher :: "string + int64 \<Rightarrow> Watcher" where
  "scenario_watcher loaderCurrent =
     \<lparr> Topics = Inr [''orders'', ''loader-reload-orders''],
       LastOffset = (\<lambda>t p. if t = ''orders'' then Inr 1000 else Inr 5050),
       CurrentOffset = (\<lambda>cg t p. if t = ''orders'' then Inr 990 else loaderCurrent) \<rparr>"

definition scenario_group :: "int64 option \<Rightarrow> tipocav1_Group" where
  "scenario_group persisted = \<lparr> ID = ''reload'', LoaderCurrentOffset = persisted \<rparr>"

definition scenario_calculator ::
  "string + int64 \<Rightarrow> int64 option \<Rightarrow> (string \<rightharpoonup> topicRealtimeInfo) \<Rightarrow> realtimeCalculator" where
  "scenario_calculator loaderCurrent persisted cch =
     calculatorWith
       (sinkWith (Some \<lparr> MaxBatcherLag = Some 100, MaxLoaderLag = Some 100 \<rparr>) None)
       (scenario_watcher loaderCurrent) [''orders'' \<mapsto> scenario_group persisted] cch"

definition scenario_tick :: "int64 \<Rightarrow> tick" where
  "scenario_tick now = \<lparr> randIntn = 37, nowCache = now, nowFetch = now, nowLoop = now \<rparr>"

definition keptRealtime :: "int64 \<Rightarrow> topicRealtimeInfo" where
  "keptRealtime now =
     \<lparr> lastUpdate = Some now, batcher = None, loader = None,
       batcherRealtime = True, loaderRealtime = True \<rparr>"

text \<open>
  Two calculators have the same inputs when they agree on the bus, the topic groups and
  the name, namespace and spec of the sink object.
\<close>

definition sameInputs :: "realtimeCalculator \<Rightarrow> realtimeCalculator \<Rightarrow> bool" where
  "sameInputs r r' =
     (watcher r' = watcher r \<and> topicGroups r' = topicGroups r \<and>
      Name (rsk r') = Name (rsk r) \<and> Namespace (rsk r') = Namespace (rsk r) \<and>
      Spec (rsk r') = Spec (rsk r))"

text \<open>
  The info \<open>fetchRealtimeInfo\<close> returns once it has fetched the last offsets of both
  sides: the time of the fetch, the two positions, both flags still false.
\<close>

definition fetchedInfo ::
  "int64 \<Rightarrow> int64 \<Rightarrow> int64 option \<Rightarrow> int64 \<Rightarrow> int64 option \<Rightarrow> topicRealtimeInfo" where
  "fetchedInfo now batcherLast batcherCurrent loaderLast loaderCurrent =
     \<lparr> lastUpdate = Some now,
       batcher = Some \<lparr> op_last = Some batcherLast, op_current = batcherCurrent \<rparr>,
       loader = Some \<lparr> op_last = Some loaderLast, op_current = loaderCurrent \<rparr>,
       batcherRealtime = False, loaderRealtime = False \<rparr>"

section \<open>Path lemmas\<close>

lemma splitSep_not_Nil: "splitSep s \<noteq> []"
  by (induction s) (auto split: list.splits)

lemma splitSep_append: "splitSep (a @ CHR ''/'' # b) = splitSep a @ splitSep b"
proof (induction a)
  case Nil
  show ?case by simp
next
  case (Cons c cs)
  show ?case
  proof (cases "c = CHR ''/''")
    case True
    with Cons show ?thesis by simp
  next
    case False
    obtain e es where "splitSep cs = e # es"
      using splitSep_not_Nil [of cs] by (cases "splitSep cs") auto
    with False Cons show ?thesis by simp
  qed
qed

lemma splitSep_plain: "CHR ''/'' \<notin> set e \<Longrightarrow> splitSep e = [e]"
  by (induction e) auto

lemma joinSep_append: "xs \<noteq> [] \<Longrightarrow> ys \<noteq> [] \<Longrightarrow> joinSep (xs @ ys) = joinSep xs @ CHR ''/'' # joinSep ys"
  by (induction xs rule: joinSep.induct) (auto simp: neq_Nil_conv)

lemma joinSep_splitSep: "joinSep (splitSep s) = s"
proof (induction s)
  case Nil
  show ?case by simp
next
  case (Cons c cs)
  obtain e es where es: "splitSep cs = e # es"
    using splitSep_not_Nil [of cs] by (cases "splitSep cs") auto
  show ?case
  proof (cases "c = CHR ''/''")
    case True
    with Cons es show ?thesis by simp
  next
    case False
    with Cons es show ?thesis by (cases es) auto
  qed
qed

lemma cleanElems_plain: "list_all plainElem es \<Longrightarrow> cleanElems rooted es out = out @ es"
  by (induction es arbitrary: out) (auto simp: plainElem_def)

lemma digitChar_not_sep: "digitChar d \<noteq> CHR ''/''"
proof -
  have "d mod 10 < length ''0123456789''" by simp
  then have "digitChar d \<in> set ''0123456789''"
    unfolding digitChar_def by (rule nth_mem)
  then show ?thesis by auto
qed

lemma fmtNat_no_sep: "CHR ''/'' \<notin> set (fmtNat n)"
proof (induction n rule: fmtNat.induct)
  case (1 n)
  show ?case
  proof (cases "n < 10")
    case True
    then have "fmtNat n = [digitChar n]" by simp
    then show ?thesis using digitChar_not_sep [of n] by simp
  next
    case False
    then have "fmtNat n = fmtNat (n div 10) @ [digitChar (n mod 10)]" by simp
    then show ?thesis using 1 [OF False] digitChar_not_sep [of "n mod 10"] by simp
  qed
qed

lemma fmtInt_no_sep: "CHR ''/'' \<notin> set (fmtInt i)"
  using fmtNat_no_sep by (auto simp: fmtInt_def simp del: fmtNat.simps)

lemma s3FileName_plain: "plainElem (s3FileName off p)"
  using fmtInt_no_sep by (auto simp: plainElem_def s3FileName_def)


lemma splitSep_joinSep:
  "es \<noteq> [] \<Longrightarrow> list_all plainElem es \<Longrightarrow> splitSep (joinSep es) = es"
proof (induction es rule: joinSep.induct)
  case 1
  then show ?case by simp
next
  case (2 e)
  then show ?case by (simp add: plainElem_def splitSep_plain)
next
  case (3 e v va)
  then show ?case by (simp add: plainElem_def splitSep_append splitSep_plain)
qed

lemma filepath_Join_plain:
  assumes d: "plainPath d" and es: "list_all plainElem es" and ne: "es \<noteq> []"
  shows "filepath_Join (d # es) = d @ CHR ''/'' # joinSep es"
proof -
  from d have dne: "d \<noteq> []" by (simp add: plainPath_def)
  let ?p = "d @ CHR ''/'' # joinSep es"
  have j: "joinSep (d # es) = ?p" using ne by (cases es) auto
  have sp: "splitSep ?p = splitSep d @ es"
    using splitSep_joinSep [OF ne es] by (simp add: splitSep_append)
  have hdp: "hd ?p = hd d" using dne by simp
  have "filepath_Clean ?p = ?p"
  proof (cases "hd d = CHR ''/''")
    case False
    with d have pl: "list_all plainElem (splitSep d @ es)" using es by (simp add: plainPath_def)
    have "cleanElems False (splitSep d @ es) [] = splitSep d @ es"
      using cleanElems_plain [OF pl, of False "[]"] by simp
    moreover have "joinSep (splitSep d @ es) = ?p"
      using joinSep_append [OF splitSep_not_Nil ne, of d] by (simp add: joinSep_splitSep)
    ultimately show ?thesis
      using False dne ne hdp sp by (simp add: filepath_Clean_def Let_def)
  next
    case True
    with dne obtain d' where d': "d = CHR ''/'' # d'" by (cases d) auto
    with d have pl: "list_all plainElem (splitSep d' @ es)" using es by (simp add: plainPath_def)
    have "cleanElems True (splitSep d @ es) [] = splitSep d' @ es"
      using cleanElems_plain [OF pl, of True "[]"] d' by simp
    moreover have "CHR ''/'' # joinSep (splitSep d' @ es) = ?p"
      using joinSep_append [OF splitSep_not_Nil ne, of d'] d' by (simp add: joinSep_splitSep)
    ultimately show ?thesis
      using True dne hdp sp by (simp add: filepath_Clean_def Let_def)
  qed
  then show ?thesis using dne j by (simp add: filepath_Join_def del: joinSep.simps)
qed




lemma cleanElems_nonempty:
  "[] \<notin> set out \<Longrightarrow> [] \<notin> set (cleanElems rooted es out)"
proof (induction es arbitrary: out)
  case Nil
  then show ?case by simp
next
  case (Cons e es)
  have b: "[] \<notin> set (butlast out)" using Cons.prems by (auto dest: in_set_butlastD)
  have c: "[] \<notin> set (out @ [''..''])" using Cons.prems by simp
  show ?case
  proof (cases "e = [] \<or> e = ''.''")
    case True
    then show ?thesis using Cons.IH [OF Cons.prems] by auto
  next
    case False
    then have d: "[] \<notin> set (out @ [e])" using Cons.prems by auto
    show ?thesis
      using False Cons.IH [OF Cons.prems] Cons.IH [OF b] Cons.IH [OF c] Cons.IH [OF d]
      by (simp only: cleanElems.simps if_False if_True split: if_splits) auto
  qed
qed

lemma joinSep_not_Nil: "xs \<noteq> [] \<Longrightarrow> [] \<notin> set xs \<Longrightarrow> joinSep xs \<noteq> []"
  by (induction xs rule: joinSep.induct) auto

lemma filepath_Clean_not_Nil: "filepath_Clean p \<noteq> []"
proof -
  have "[] \<notin> set (cleanElems r (splitSep p) [])" for r
    by (rule cleanElems_nonempty) simp
  then show ?thesis
    using joinSep_not_Nil by (auto simp: filepath_Clean_def Let_def)
qed



lemma constructS3key_not_Nil: "constructS3key mv d g t p off \<noteq> []"
proof -
  have f: "s3FileName off p \<noteq> []" using s3FileName_plain [of off p] by (simp add: plainElem_def)
  have "filepath_Join (xs @ [s3FileName off p]) \<noteq> []" for xs
  proof -
    have "dropWhile (\<lambda>e. e = []) (xs @ [s3FileName off p]) \<noteq> []" using f by (induction xs) auto
    then show ?thesis
      using filepath_Clean_not_Nil by (auto simp: filepath_Join_def split: list.splits)
  qed
  from this [of "[d, g, t, mv]"] this [of "[d, g, t]"]
  show ?thesis by (simp add: constructS3key_def Let_def)
qed

lemma constructS3key_template:
  assumes "plainPath d" "plainElem g" "plainElem t" "mv = [] \<or> plainElem mv"
  shows "constructS3key mv d g t p off = s3KeyTemplate mv d g t p off"
proof (cases "mv = []")
  case True
  have "filepath_Join (d # [g, t, s3FileName off p]) = d @ CHR ''/'' # joinSep [g, t, s3FileName off p]"
    using assms s3FileName_plain by (intro filepath_Join_plain) auto
  with True show ?thesis
    by (simp add: constructS3key_def s3KeyTemplate_def Let_def s3FileName_def)
next
  case False
  have "filepath_Join (d # [g, t, mv, s3FileName off p]) = d @ CHR ''/'' # joinSep [g, t, mv, s3FileName off p]"
    using assms False s3FileName_plain by (intro filepath_Join_plain) auto
  with False show ?thesis
    by (simp add: constructS3key_def s3KeyTemplate_def Let_def s3FileName_def)
qed

section \<open>Lemmas on one batch\<close>

lemma lockSchema_Inl:
  "lockSchema rt b m resp = Inl (e, resp1) \<Longrightarrow>
   s3Key resp = [] \<and> s3Key resp1 = [] \<and> err resp1 = err resp \<and> batchID resp1 = batchID resp
   \<and> e = ErrTransformSchema (SchemaId m) (projl (schemaTransformer b (b_topic b) (SchemaId m)
          (schemaIDKey b) (maskSchema resp) (extraMaskSchema resp)))"
  by (auto simp: lockSchema_def Let_def split: if_splits sum.splits)

lemma lockSchema_locked: "s3Key resp \<noteq> [] \<Longrightarrow> lockSchema rt b m resp = Inr resp"
  by (simp add: lockSchema_def)

lemma lockSchema_fresh:
  "s3Key resp = [] \<Longrightarrow> lockSchema rt b m resp = Inr resp2 \<Longrightarrow>
   err resp2 = err resp \<and> batchID resp2 = batchID resp \<and>
   batchSchemaID resp2 = SchemaId m \<and> startOffset resp2 = Offset m \<and>
   s3Key resp2 = batchKey rt b m"
  by (auto simp: lockSchema_def batchKey_def Let_def split: if_splits sum.splits)

lemma writeMessage_fields:
  "writeMessage rt b m resp = (res, resp', m') \<Longrightarrow>
   err resp' = err resp \<and> batchID resp' = batchID resp \<and> s3Key resp' = s3Key resp \<and>
   batchSchemaID resp' = batchSchemaID resp \<and> startOffset resp' = startOffset resp"
  by (auto simp: writeMessage_def Let_def split: if_splits sum.splits)

lemma writeMessage_ok:
  "writeMessage rt b m resp = ((n, None), resp', m') \<Longrightarrow> endOffset resp' = Offset m'"
  by (auto simp: writeMessage_def Let_def split: if_splits sum.splits)

lemma processMessage_fields:
  assumes "processMessage rt b m resp i = (res, resp', m')"
  shows "err resp' = err resp \<and> batchID resp' = batchID resp"
proof (cases "lockSchema rt b m resp")
  case (Inl a)
  then obtain e r1 where "lockSchema rt b m resp = Inl (e, r1)" by (cases a) auto
  with assms lockSchema_Inl [OF this] show ?thesis by (auto simp: processMessage_def)
next
  case (Inr r2)
  have f: "err r2 = err resp \<and> batchID r2 = batchID resp"
    using Inr lockSchema_fresh [of resp rt b m r2] lockSchema_locked [of resp rt b m]
    by (cases "s3Key resp = []") auto
  show ?thesis
  proof (cases "batchSchemaID r2 \<noteq> SchemaId m")
    case True
    with assms Inr f show ?thesis by (auto simp: processMessage_def)
  next
    case False
    with assms Inr have "writeMessage rt b m r2 = (res, resp', m')" by (simp add: processMessage_def)
    from writeMessage_fields [OF this] f show ?thesis by simp
  qed
qed

lemma processMessage_locked:
  assumes "s3Key resp \<noteq> []" and "processMessage rt b m resp i = (res, resp', m')"
  shows "s3Key resp' = s3Key resp \<and> batchSchemaID resp' = batchSchemaID resp \<and>
         startOffset resp' = startOffset resp"
proof (cases "batchSchemaID resp \<noteq> SchemaId m")
  case True
  with assms show ?thesis by (auto simp: processMessage_def lockSchema_locked)
next
  case False
  with assms have "writeMessage rt b m resp = (res, resp', m')"
    by (simp add: processMessage_def lockSchema_locked)
  from writeMessage_fields [OF this] show ?thesis by simp
qed

lemma processMessage_locked_ok:
  assumes "s3Key resp \<noteq> []" and "processMessage rt b m resp i = ((n, None), resp', m')"
  shows "SchemaId m = batchSchemaID resp \<and> endOffset resp' = Offset m'"
proof (cases "batchSchemaID resp \<noteq> SchemaId m")
  case True
  with assms show ?thesis by (auto simp: processMessage_def lockSchema_locked)
next
  case False
  with assms have "writeMessage rt b m resp = ((n, None), resp', m')"
    by (simp add: processMessage_def lockSchema_locked)
  from writeMessage_ok [OF this] False show ?thesis by simp
qed

lemma processMessage_mismatch:
  "s3Key resp \<noteq> [] \<Longrightarrow> batchSchemaID resp \<noteq> SchemaId m \<Longrightarrow>
   processMessage rt b m resp i =
     ((0, Some (ErrSchemaIdMismatch (b_topic b) (batchSchemaID resp) (SchemaId m))), resp, m)"
  by (simp add: processMessage_def lockSchema_locked)

lemma processMessage_fresh:
  assumes "s3Key resp = []" and "processMessage rt b m resp i = (res, resp', m')"
  shows "(s3Key resp' = [] \<and> snd res \<noteq> None) \<or>
         (s3Key resp' = batchKey rt b m \<and> batchSchemaID resp' = SchemaId m \<and>
          startOffset resp' = Offset m)"
proof (cases "lockSchema rt b m resp")
  case (Inl a)
  then obtain e r1 where l: "lockSchema rt b m resp = Inl (e, r1)" by (cases a) auto
  with assms lockSchema_Inl [OF l] show ?thesis by (auto simp: processMessage_def)
next
  case (Inr r2)
  note f = lockSchema_fresh [OF assms(1) Inr]
  then have "batchSchemaID r2 = SchemaId m" by simp
  with assms Inr have "writeMessage rt b m r2 = (res, resp', m')" by (simp add: processMessage_def)
  from writeMessage_fields [OF this] f show ?thesis by simp
qed

lemma processMessage_fresh_ok:
  assumes "s3Key resp = []" and "processMessage rt b m resp i = ((n, None), resp', m')"
  shows "endOffset resp' = Offset m'"
proof (cases "lockSchema rt b m resp")
  case (Inl a)
  then obtain e r1 where l: "lockSchema rt b m resp = Inl (e, r1)" by (cases a) auto
  with assms show ?thesis by (auto simp: processMessage_def)
next
  case (Inr r2)
  note f = lockSchema_fresh [OF assms(1) Inr]
  then have "batchSchemaID r2 = SchemaId m" by simp
  with assms Inr have "writeMessage rt b m r2 = ((n, None), resp', m')" by (simp add: processMessage_def)
  from writeMessage_ok [OF this] show ?thesis by simp
qed


lemma batchKey_not_Nil: "batchKey rt b m \<noteq> []"
  by (simp add: batchKey_def constructS3key_not_Nil)

lemma loop_fields:
  "processMessages_loop rt b ms i t resp = Inr (res, resp') \<Longrightarrow>
   err resp' = err resp \<and> batchID resp' = batchID resp"
proof (induction ms arbitrary: i t resp)
  case Nil
  then show ?case by simp
next
  case (Cons m ms)
  show ?case
  proof (cases "ctxDone rt (AtMessage (batchID resp) i)")
    case True
    with Cons.prems show ?thesis by simp
  next
    case False
    obtain n e r1 m1 where pm: "processMessage rt b m resp i = ((n, e), r1, m1)"
      by (metis prod.exhaust)
    note f = processMessage_fields [OF pm]
    show ?thesis
    proof (cases e)
      case (Some x)
      with Cons.prems False pm f show ?thesis by simp
    next
      case None
      with Cons.prems False pm f show ?thesis
        by (cases "Operation m1") (auto dest!: Cons.IH)
    qed
  qed
qed

lemma loop_locked_ok:
  "s3Key resp \<noteq> [] \<Longrightarrow> processMessages_loop rt b ms i t resp = Inr ((n, None), resp') \<Longrightarrow>
   (\<forall>m\<in>set ms. SchemaId m = batchSchemaID resp) \<and>
   s3Key resp' = s3Key resp \<and> batchSchemaID resp' = batchSchemaID resp \<and>
   startOffset resp' = startOffset resp"
proof (induction ms arbitrary: i t resp)
  case Nil
  then show ?case by simp
next
  case (Cons m ms)
  from Cons.prems have nd: "\<not> ctxDone rt (AtMessage (batchID resp) i)"
    by (auto split: if_splits)
  obtain k e r1 m1 where pm: "processMessage rt b m resp i = ((k, e), r1, m1)"
    by (metis prod.exhaust)
  from Cons.prems nd pm have e: "e = None" by (cases e) auto
  note l = processMessage_locked [OF Cons.prems(1) pm]
  note o = processMessage_locked_ok [OF Cons.prems(1) pm [unfolded e]]
  from l Cons.prems(1) have k1: "s3Key r1 \<noteq> []" by simp
  from Cons.prems nd pm e obtain r2 where
    r2: "processMessages_loop rt b ms (i + 1) (t + k) r2 = Inr ((n, None), resp')" and
    r2f: "s3Key r2 = s3Key r1 \<and> batchSchemaID r2 = batchSchemaID r1 \<and> startOffset r2 = startOffset r1"
    by (cases "Operation m1") auto
  from k1 r2f have k2: "s3Key r2 \<noteq> []" by simp
  from Cons.IH [OF k2 r2] r2f l o show ?case by simp
qed

lemma loop_locked:
  "s3Key resp \<noteq> [] \<Longrightarrow> processMessages_loop rt b ms i t resp = Inr (res, resp') \<Longrightarrow>
   s3Key resp' = s3Key resp"
proof (induction ms arbitrary: i t resp)
  case Nil
  then show ?case by simp
next
  case (Cons m ms)
  show ?case
  proof (cases "ctxDone rt (AtMessage (batchID resp) i)")
    case True
    with Cons.prems show ?thesis by simp
  next
    case False
    obtain k e r1 m1 where pm: "processMessage rt b m resp i = ((k, e), r1, m1)"
      by (metis prod.exhaust)
    note l = processMessage_locked [OF Cons.prems(1) pm]
    show ?thesis
    proof (cases e)
      case (Some x)
      with Cons.prems False pm l show ?thesis by simp
    next
      case None
      with Cons.prems False pm obtain r2 where
        r2: "processMessages_loop rt b ms (i + 1) (t + k) r2 = Inr (res, resp')" and
        r2f: "s3Key r2 = s3Key r1"
        by (cases "Operation m1") auto
      from l r2f Cons.prems(1) have "s3Key r2 \<noteq> []" by simp
      from Cons.IH [OF this r2] r2f l show ?thesis by simp
    qed
  qed
qed

lemma loop_fresh_key:
  assumes "s3Key resp = []"
    and "processMessages_loop rt b (m0 # rest) i t resp = Inr (res, resp')"
  shows "s3Key resp' = [] \<or> s3Key resp' = batchKey rt b m0"
proof (cases "ctxDone rt (AtMessage (batchID resp) i)")
  case True
  with assms show ?thesis by simp
next
  case False
  obtain k e r1 m1 where pm: "processMessage rt b m0 resp i = ((k, e), r1, m1)"
    by (metis prod.exhaust)
  note f = processMessage_fresh [OF assms(1) pm]
  show ?thesis
  proof (cases e)
    case (Some x)
    with assms False pm f show ?thesis by auto
  next
    case None
    with f have k1: "s3Key r1 = batchKey rt b m0" by simp
    from None assms False pm obtain r2 where
      r2: "processMessages_loop rt b rest (i + 1) (t + k) r2 = Inr (res, resp')" and
      r2f: "s3Key r2 = s3Key r1"
      by (cases "Operation m1") auto
    from k1 r2f have "s3Key r2 \<noteq> []" by (simp add: batchKey_not_Nil)
    from loop_locked [OF this r2] r2f k1 show ?thesis by simp
  qed
qed

lemma loop_fresh_ok:
  assumes "s3Key resp = []"
    and "processMessages_loop rt b (m0 # rest) i t resp = Inr ((n, None), resp')"
  shows "(\<forall>m\<in>set rest. SchemaId m = SchemaId m0) \<and> s3Key resp' = batchKey rt b m0 \<and>
         batchSchemaID resp' = SchemaId m0 \<and> startOffset resp' = Offset m0"
proof -
  from assms(2) have nd: "\<not> ctxDone rt (AtMessage (batchID resp) i)"
    by (auto split: if_splits)
  obtain k e r1 m1 where pm: "processMessage rt b m0 resp i = ((k, e), r1, m1)"
    by (metis prod.exhaust)
  from assms(2) nd pm have e: "e = None" by (cases e) auto
  from processMessage_fresh [OF assms(1) pm] e
  have f: "s3Key r1 = batchKey rt b m0 \<and> batchSchemaID r1 = SchemaId m0 \<and> startOffset r1 = Offset m0"
    by simp
  from assms(2) nd pm e obtain r2 where
    r2: "processMessages_loop rt b rest (i + 1) (t + k) r2 = Inr ((n, None), resp')" and
    r2f: "s3Key r2 = s3Key r1 \<and> batchSchemaID r2 = batchSchemaID r1 \<and> startOffset r2 = startOffset r1"
    by (cases "Operation m1") auto
  from f r2f have "s3Key r2 \<noteq> []" by (simp add: batchKey_not_Nil)
  from loop_locked_ok [OF this r2] r2f f show ?thesis by simp
qed

lemma loop_append:
  "processMessages_loop rt b xs i t resp = Inr ((t', None), r') \<Longrightarrow>
   processMessages_loop rt b (xs @ ys) i t resp =
     processMessages_loop rt b ys (i + int (length xs)) t' r'"
proof (induction xs arbitrary: i t resp)
  case Nil
  then show ?case by simp
next
  case (Cons m ms)
  from Cons.prems have nd: "\<not> ctxDone rt (AtMessage (batchID resp) i)"
    by (auto split: if_splits)
  obtain k e r1 m1 where pm: "processMessage rt b m resp i = ((k, e), r1, m1)"
    by (metis prod.exhaust)
  from Cons.prems nd pm have e: "e = None" by (cases e) auto
  show ?case
  proof (cases "Operation m1")
    case OperationCreate
    with Cons.prems nd pm e
    have "processMessages_loop rt b ms (i + 1) (t + k) (r1\<lparr>createEvents := createEvents r1 + 1\<rparr>)
            = Inr ((t', None), r')" by simp
    from Cons.IH [OF this] nd pm e OperationCreate show ?thesis by (simp add: algebra_simps)
  next
    case OperationUpdate
    with Cons.prems nd pm e
    have "processMessages_loop rt b ms (i + 1) (t + k) (r1\<lparr>updateEvents := updateEvents r1 + 1\<rparr>)
            = Inr ((t', None), r')" by simp
    from Cons.IH [OF this] nd pm e OperationUpdate show ?thesis by (simp add: algebra_simps)
  next
    case OperationDelete
    with Cons.prems nd pm e
    have "processMessages_loop rt b ms (i + 1) (t + k) (r1\<lparr>deleteEvents := deleteEvents r1 + 1\<rparr>)
            = Inr ((t', None), r')" by simp
    from Cons.IH [OF this] nd pm e OperationDelete show ?thesis by (simp add: algebra_simps)
  next
    case (OperationOther s)
    with Cons.prems nd pm e show ?thesis by simp
  qed
qed

lemma writeMessage_keeps:
  assumes "keepsOffset (messageTransformer b)" and "maskMessages b \<longrightarrow> keepsOffset (msgMasker b)"
    and "writeMessage rt b m resp = ((n, None), resp', m')"
  shows "endOffset resp' = Offset m"
  using assms unfolding keepsOffset_def writeMessage_def Let_def
  by (auto split: if_splits sum.splits)

lemma processMessage_keeps:
  assumes "keepsOffset (messageTransformer b)" and "maskMessages b \<longrightarrow> keepsOffset (msgMasker b)"
    and "processMessage rt b m resp i = ((n, None), resp', m')"
  shows "endOffset resp' = Offset m"
proof (cases "lockSchema rt b m resp")
  case (Inl a)
  with assms(3) show ?thesis by (cases a) (auto simp: processMessage_def)
next
  case (Inr r2)
  with assms(3) have "writeMessage rt b m r2 = ((n, None), resp', m')"
    by (auto simp: processMessage_def split: if_splits)
  from writeMessage_keeps [OF assms(1,2) this] show ?thesis .
qed

lemma loop_endOffset:
  assumes "keepsOffset (messageTransformer b)" and "maskMessages b \<longrightarrow> keepsOffset (msgMasker b)"
  shows "processMessages_loop rt b ms i t resp = Inr ((n, None), resp') \<Longrightarrow>
         endOffset resp' = (if ms = [] then endOffset resp else Offset (last ms))"
proof (induction ms arbitrary: i t resp)
  case Nil
  then show ?case by simp
next
  case (Cons m ms)
  from Cons.prems have nd: "\<not> ctxDone rt (AtMessage (batchID resp) i)"
    by (auto split: if_splits)
  obtain k e r1 m1 where pm: "processMessage rt b m resp i = ((k, e), r1, m1)"
    by (metis prod.exhaust)
  from Cons.prems nd pm have e: "e = None" by (cases e) auto
  note o = processMessage_keeps [OF assms pm [unfolded e]]
  from Cons.prems nd pm e obtain r2 where
    r2: "processMessages_loop rt b ms (i + 1) (t + k) r2 = Inr ((n, None), resp')" and
    r2f: "endOffset r2 = endOffset r1"
    by (cases "Operation m1") auto
  from Cons.IH [OF r2] r2f o show ?case by simp
qed


lemma processBatch_cases:
  assumes "processBatch rt b msgBuf resp0 = Inr (resp, evs)" and "err resp0 = None"
  shows "batchID resp = batchID resp0 \<and>
         ((err resp \<noteq> None \<and> evs = []) \<or>
          (err resp = None \<and> (\<exists>body. evs = [Uploaded (s3Key resp) body]) \<and>
           (\<exists>n r1. processMessages rt b msgBuf resp0 = Inr ((n, None), r1) \<and>
                    s3Key resp = s3Key r1 \<and> startOffset resp = startOffset r1 \<and>
                    endOffset resp = endOffset r1 \<and> batchSchemaID resp = batchSchemaID r1)))"
proof (cases "ctxDone rt (AtBatch (batchID resp0))")
  case True
  with assms show ?thesis by (auto simp: processBatch_def ctxCancelled_def)
next
  case False
  show ?thesis
  proof (cases "processMessages rt b msgBuf resp0")
    case (Inl f)
    with assms False show ?thesis by (simp add: processBatch_def ctxCancelled_def)
  next
    case (Inr a)
    then obtain n e r1 where pm: "processMessages rt b msgBuf resp0 = Inr ((n, e), r1)"
      by (metis prod.exhaust)
    from pm have f: "err r1 = err resp0 \<and> batchID r1 = batchID resp0"
      unfolding processMessages_def by (rule loop_fields)
    show ?thesis
    proof (cases e)
      case (Some x)
      with assms False pm f show ?thesis by (auto simp: processBatch_def ctxCancelled_def)
    next
      case None
      with assms False pm f show ?thesis
        by (auto simp: processBatch_def ctxCancelled_def Let_def split: sum.splits option.splits)
    qed
  qed
qed

lemma newResponse_fields: "err (newResponse i) = None" "s3Key (newResponse i) = []"
  "batchID (newResponse i) = i + 1" "endOffset (newResponse i) = 0"
  by (simp_all add: newResponse_def)

lemma processBatch_mixed:
  assumes "mixedSchema msgBuf" and "processBatch rt b msgBuf (newResponse i) = Inr (resp, evs)"
  shows "err resp \<noteq> None \<and> evs = []"
proof (rule ccontr)
  assume "\<not> ?thesis"
  with processBatch_cases [OF assms(2) newResponse_fields(1)]
  obtain n r1 where "processMessages rt b msgBuf (newResponse i) = Inr ((n, None), r1)" by auto
  moreover from assms(1) obtain m0 rest where mb: "msgBuf = m0 # rest"
    and ex: "\<exists>m\<in>set rest. SchemaId m \<noteq> SchemaId m0"
    by (auto simp: mixedSchema_def list_ex_iff split: list.splits)
  ultimately have "\<forall>m\<in>set rest. SchemaId m = SchemaId m0"
    using loop_fresh_ok [OF newResponse_fields(2), of rt b m0 rest 0 0 i n r1]
    by (simp add: processMessages_def)
  with ex show False by simp
qed

lemma processBatch_ok:
  assumes "processBatch rt b (m0 # rest) (newResponse i) = Inr (resp, evs)" and "err resp = None"
  shows "s3Key resp = batchKey rt b m0 \<and> startOffset resp = Offset m0 \<and>
         batchSchemaID resp = SchemaId m0 \<and> (\<forall>m\<in>set rest. SchemaId m = SchemaId m0) \<and>
         (\<exists>body. evs = [Uploaded (batchKey rt b m0) body])"
proof -
  from processBatch_cases [OF assms(1) newResponse_fields(1)] assms(2)
  obtain n r1 body where pm: "processMessages rt b (m0 # rest) (newResponse i) = Inr ((n, None), r1)"
    and f: "s3Key resp = s3Key r1 \<and> startOffset resp = startOffset r1 \<and>
            endOffset resp = endOffset r1 \<and> batchSchemaID resp = batchSchemaID r1"
    and ev: "evs = [Uploaded (s3Key resp) body]" by auto
  from loop_fresh_ok [OF newResponse_fields(2) pm [unfolded processMessages_def]] f ev
  show ?thesis by simp
qed

lemma processBatch_key:
  assumes "processBatch rt b (m0 # rest) (newResponse i) = Inr (resp, evs)"
  shows "(s3Key resp = [] \<or> s3Key resp = batchKey rt b m0) \<and>
         (evs = [] \<or> (\<exists>body. evs = [Uploaded (batchKey rt b m0) body]))"
proof (cases "err resp")
  case None
  from processBatch_ok [OF assms None] show ?thesis by auto
next
  case (Some e)
  with processBatch_cases [OF assms newResponse_fields(1)] have ev: "evs = []" by auto
  have "s3Key resp = [] \<or> s3Key resp = batchKey rt b m0"
  proof (cases "ctxDone rt (AtBatch (batchID (newResponse i)))")
    case True
    with assms show ?thesis by (auto simp: processBatch_def ctxCancelled_def newResponse_def)
  next
    case False
    show ?thesis
    proof (cases "processMessages rt b (m0 # rest) (newResponse i)")
      case (Inl f)
      with assms False show ?thesis by (simp add: processBatch_def ctxCancelled_def)
    next
      case (Inr a)
      then obtain n e r1 where pm: "processMessages rt b (m0 # rest) (newResponse i) = Inr ((n, e), r1)"
        by (metis prod.exhaust)
      from loop_fresh_key [OF newResponse_fields(2) pm [unfolded processMessages_def]]
      have k: "s3Key r1 = [] \<or> s3Key r1 = batchKey rt b m0" .
      from assms False pm have "s3Key resp = s3Key r1"
        by (cases e) (auto simp: processBatch_def ctxCancelled_def Let_def split: sum.splits option.splits)
      with k show ?thesis by simp
    qed
  qed
  with ev show ?thesis by simp
qed

section \<open>Lemmas on one round\<close>

lemma startBatches_ran:
  "startBatches rt b bufs i = (rs, ups, None) \<Longrightarrow> list_all2 (ranAs rt b) bufs rs"
proof (induction bufs arbitrary: i rs ups)
  case Nil
  then show ?case by simp
next
  case (Cons buf bufs)
  then show ?case
    by (auto simp: ranAs_def split: sum.splits prod.splits)
qed

lemma startBatches_uploads:
  "startBatches rt b bufs i = (rs, ups, f) \<Longrightarrow> \<forall>ev\<in>set ups. \<not> marksOrCommits ev"
proof (induction bufs arbitrary: i rs ups f)
  case Nil
  then show ?case by simp
next
  case (Cons buf bufs)
  show ?case
  proof (cases "processBatch rt b buf (newResponse i)")
    case (Inl a)
    with Cons.prems show ?thesis by simp
  next
    case (Inr a)
    then obtain r evs where pb: "processBatch rt b buf (newResponse i) = Inr (r, evs)" by (cases a) auto
    obtain rs1 ups1 f1 where sb: "startBatches rt b bufs (i + 1) = (rs1, ups1, f1)"
      by (metis prod.exhaust)
    from processBatch_cases [OF pb newResponse_fields(1)]
    have "\<forall>ev\<in>set evs. \<not> marksOrCommits ev" by auto
    with Cons.IH [OF sb] Cons.prems pb sb show ?thesis by auto
  qed
qed

lemma processBatch_uploaded:
  assumes pb: "processBatch rt b msgBuf resp0 = Inr (resp, evs)"
    and e0: "err resp0 = None" and e: "err resp = None"
  shows "\<exists>ev. evs = [ev] \<and> uploadOf rt b resp ev"
proof (cases "ctxDone rt (AtBatch (batchID resp0))")
  case True
  with pb e show ?thesis by (auto simp: processBatch_def ctxCancelled_def)
next
  case False
  show ?thesis
  proof (cases "processMessages rt b msgBuf resp0")
    case (Inl f)
    with pb False show ?thesis by (simp add: processBatch_def ctxCancelled_def)
  next
    case (Inr a)
    then obtain n er r1 where pm: "processMessages rt b msgBuf resp0 = Inr ((n, er), r1)"
      by (metis prod.exhaust)
    show ?thesis
    proof (cases er)
      case (Some x)
      with pb False pm e show ?thesis by (auto simp: processBatch_def ctxCancelled_def)
    next
      case None
      show ?thesis
      proof (cases "gzipWrite rt (bodyBuf (r1\<lparr>bytesProcessed := n\<rparr>))")
        case (Inl x)
        with pb False pm None show ?thesis
          by (simp add: processBatch_def ctxCancelled_def Let_def)
      next
        case gz: (Inr body)
        show ?thesis
        proof (cases "uploader (s3sink b) (bucket (s3sink b)) (s3Key r1) body")
          case up: None
          with pb False pm None gz
          have "resp = r1\<lparr>bytesProcessed := n, bodyBuf := [],
                           messagesProcessed := int (length msgBuf)\<rparr>"
            and "evs = [Uploaded (s3Key r1) body]"
            by (simp_all add: processBatch_def ctxCancelled_def Let_def Upload_def)
          with gz up show ?thesis by (auto simp: uploadOf_def)
        next
          case (Some x)
          with pb False pm None gz e show ?thesis
            by (auto simp: processBatch_def ctxCancelled_def Let_def Upload_def)
        qed
      qed
    qed
  qed
qed

lemma startBatches_ok:
  "startBatches rt b bufs i = (rs, ups, None) \<Longrightarrow> \<forall>r\<in>set rs. err r = None \<Longrightarrow>
   list_all2 (uploadOf rt b) rs ups"
proof (induction bufs arbitrary: i rs ups)
  case Nil
  then show ?case by simp
next
  case (Cons buf bufs)
  show ?case
  proof (cases "processBatch rt b buf (newResponse i)")
    case (Inl a)
    with Cons.prems show ?thesis by simp
  next
    case (Inr a)
    then obtain r evs where pb: "processBatch rt b buf (newResponse i) = Inr (r, evs)" by (cases a) auto
    obtain rs1 ups1 f1 where sb: "startBatches rt b bufs (i + 1) = (rs1, ups1, f1)"
      by (metis prod.exhaust)
    from Cons.prems pb sb have eq: "rs = r # rs1" "ups = evs @ ups1" "f1 = None" by auto
    with Cons.prems have er: "err r = None" and rest: "\<forall>r\<in>set rs1. err r = None" by auto
    from processBatch_uploaded [OF pb newResponse_fields(1) er]
    obtain ev where "evs = [ev]" "uploadOf rt b r ev" by blast
    with Cons.IH [OF sb [unfolded eq(3)] rest] eq
    show ?thesis by simp
  qed
qed

lemma collectErrors_grows:
  "collectErrors rs t m es = (fl, t', m', es') \<Longrightarrow> \<exists>xs. es' = es @ xs"
proof (induction rs arbitrary: t m es)
  case Nil
  then show ?case by simp
next
  case (Cons r rs)
  then show ?case
    by (cases "err r") (auto simp: Let_def split: if_splits dest!: Cons.IH)
qed

lemma collectErrors_clean:
  "collectErrors rs t m es = (False, t', m', []) \<Longrightarrow> \<forall>r\<in>set rs. err r = None"
proof (induction rs arbitrary: t m es)
  case Nil
  then show ?case by simp
next
  case (Cons r rs)
  show ?case
  proof (cases "err r")
    case None
    with Cons show ?thesis by (auto simp: Let_def)
  next
    case (Some e)
    with Cons.prems have "e \<noteq> ErrSaramaSessionContextDone" by (auto simp: Let_def)
    with Cons.prems Some
    have "collectErrors rs (t + bytesProcessed r) (m + messagesProcessed r) (es @ [e]) = (False, t', m', [])"
      by (simp add: Let_def)
    from collectErrors_grows [OF this] show ?thesis by simp
  qed
qed

lemma signalAll_done:
  "signalAll rt b rs = (sigs, True) \<Longrightarrow> list_all2 (signalOf rt b) rs sigs"
proof (induction rs arbitrary: sigs)
  case Nil
  then show ?case by simp
next
  case (Cons r rs)
  from Cons.prems have nd: "\<not> ctxDone rt (AtSignal (batchID r))" by (auto split: if_splits)
  obtain e evs where sl: "signalLoad rt b r = (e, evs)" by (metis prod.exhaust)
  from Cons.prems nd sl have e: "e = None" by (cases e) (auto split: if_splits)
  obtain evs1 fl where sa: "signalAll rt b rs = (evs1, fl)" by (metis prod.exhaust)
  from Cons.prems nd sl e sa have eq: "sigs = evs @ evs1" "fl = True" by auto
  from sl e have "\<exists>ev. evs = [ev] \<and> signalOf rt b r ev"
    by (auto simp: signalLoad_def Let_def signalOf_def split: option.splits)
  with Cons.IH [OF sa [unfolded eq(2)]] eq show ?case by auto
qed

lemma signalAll_events:
  "signalAll rt b rs = (sigs, fl) \<Longrightarrow> \<forall>ev\<in>set sigs. \<not> marksOrCommits ev"
proof (induction rs arbitrary: sigs fl)
  case Nil
  then show ?case by simp
next
  case (Cons r rs)
  obtain e evs where sl: "signalLoad rt b r = (e, evs)" by (metis prod.exhaust)
  then have ev: "\<forall>ev\<in>set evs. \<not> marksOrCommits ev"
    by (auto simp: signalLoad_def Let_def split: option.splits)
  obtain evs1 fl1 where sa: "signalAll rt b rs = (evs1, fl1)" by (metis prod.exhaust)
  from Cons.IH [OF sa] Cons.prems sl sa ev show ?case
    by (cases e) (auto simp: handleShutdown_def split: if_splits)
qed

lemma list_all2_last:
  "list_all2 P xs ys \<Longrightarrow> xs \<noteq> [] \<Longrightarrow> P (last xs) (last ys)"
  by (induction rule: list_all2_induct) (auto simp: list_all2_Nil)

lemma list_all2_member:
  "list_all2 P xs ys \<Longrightarrow> x \<in> set xs \<Longrightarrow> \<exists>y\<in>set ys. P x y"
  by (induction rule: list_all2_induct) auto

lemma ranAs_endOffset:
  assumes "ranAs rt b msgBuf r" and "err r = None"
    and "keepsOffset (messageTransformer b)" and "maskMessages b \<longrightarrow> keepsOffset (msgMasker b)"
  shows "endOffset r = (if msgBuf = [] then 0 else Offset (last msgBuf))"
proof -
  from assms(1) obtain i evs where pb: "processBatch rt b msgBuf (newResponse i) = Inr (r, evs)"
    by (auto simp: ranAs_def)
  from processBatch_cases [OF pb newResponse_fields(1)] assms(2)
  obtain n r1 where pm: "processMessages rt b msgBuf (newResponse i) = Inr ((n, None), r1)"
    and e: "endOffset r = endOffset r1" by auto
  from loop_endOffset [OF assms(3,4) pm [unfolded processMessages_def]] e
  show ?thesis by (simp add: newResponse_fields)
qed

lemma Process_round_NextRound:
  assumes "Process_round rt b msgBufs = (NextRound, trace)"
  shows "\<exists>responses uploads signals totalBytes totalMsgs.
           startBatches rt b msgBufs 0 = (responses, uploads, None) \<and>
           responses \<noteq> [] \<and>
           (\<forall>r\<in>set responses. err r = None) \<and>
           signalAll rt b responses = (signals, True) \<and>
           trace = uploads @ signals @
                   markOffset b (b_topic b) 0 (endOffset (last responses)) (autoCommit b) @
                   [SetBytesProcessed totalBytes, SetMsgsProcessed totalMsgs]"
proof -
  obtain responses uploads f where sb: "startBatches rt b msgBufs 0 = (responses, uploads, f)"
    by (metis prod.exhaust)
  from assms sb have f: "f = None" by (cases f) (auto simp: Process_round_def)
  from assms sb f have ne: "responses \<noteq> []" by (auto simp: Process_round_def split: if_splits)
  obtain fl tb tm es where ce: "collectErrors responses 0 0 [] = (fl, tb, tm, es)"
    by (metis prod.exhaust)
  from assms sb f ne ce have fl: "fl = False" by (cases fl) (auto simp: Process_round_def)
  from assms sb f ne ce fl have es: "es = []"
    by (cases "es = []") (auto simp: Process_round_def split: if_splits)
  obtain signals fin where sa: "signalAll rt b responses = (signals, fin)" by (metis prod.exhaust)
  from assms sb f ne ce fl es sa have d: "fin = True"
    by (cases fin) (auto simp: Process_round_def)
  from assms sb f ne ce fl es sa d
  have "trace = uploads @ signals @
                markOffset b (b_topic b) 0 (endOffset (last responses)) (autoCommit b) @
                [SetBytesProcessed tb, SetMsgsProcessed tm]"
    by (simp add: Process_round_def Let_def)
  moreover from collectErrors_clean [OF ce [unfolded fl es]]
  have "\<forall>r\<in>set responses. err r = None" .
  ultimately show ?thesis using sb f ne sa d by auto
qed

lemma Process_round_no_mark:
  assumes "Process_round rt b msgBufs = (out, trace)" and "out \<noteq> NextRound"
  shows "\<forall>ev\<in>set trace. \<not> marksOrCommits ev"
proof -
  obtain responses uploads f where sb: "startBatches rt b msgBufs 0 = (responses, uploads, f)"
    by (metis prod.exhaust)
  note up = startBatches_uploads [OF sb]
  show ?thesis
  proof (cases f)
    case (Some a)
    with assms sb up show ?thesis by (auto simp: Process_round_def)
  next
    case None
    show ?thesis
    proof (cases "responses = []")
      case True
      with assms sb up None show ?thesis by (auto simp: Process_round_def)
    next
      case False
      obtain fl tb tm es where ce: "collectErrors responses 0 0 [] = (fl, tb, tm, es)"
        by (metis prod.exhaust)
      obtain signals fin where sa: "signalAll rt b responses = (signals, fin)"
        by (metis prod.exhaust)
      note sg = signalAll_events [OF sa]
      from assms sb up None False ce sa sg show ?thesis
        by (cases fl; cases "es = []"; cases fin)
           (auto simp: Process_round_def handleShutdown_def split: if_splits)
    qed
  qed
qed

lemma Process_round_mixed:
  assumes "msgBuf \<in> set msgBufs" and "mixedSchema msgBuf"
  shows "fst (Process_round rt b msgBufs) \<noteq> NextRound"
proof
  assume n: "fst (Process_round rt b msgBufs) = NextRound"
  then obtain trace where "Process_round rt b msgBufs = (NextRound, trace)"
    by (cases "Process_round rt b msgBufs") auto
  from Process_round_NextRound [OF this] obtain responses uploads where
    sb: "startBatches rt b msgBufs 0 = (responses, uploads, None)" and
    ok: "\<forall>r\<in>set responses. err r = None" by auto
  from startBatches_ran [OF sb] assms(1) obtain r where "r \<in> set responses" "ranAs rt b msgBuf r"
    by (auto dest: list_all2_member)
  then obtain i evs where "processBatch rt b msgBuf (newResponse i) = Inr (r, evs)" "err r = None"
    using ok by (auto simp: ranAs_def)
  with processBatch_mixed [OF assms(2), of rt b i r evs] show False by simp
qed

lemma Process_round_success:
  assumes "Process_round rt b msgBufs = (NextRound, trace)"
  shows "\<exists>responses uploads signals totalBytes totalMsgs.
           list_all2 (ranAs rt b) msgBufs responses \<and> responses \<noteq> [] \<and>
           (\<forall>r\<in>set responses. err r = None) \<and>
           list_all2 (uploadOf rt b) responses uploads \<and>
           list_all2 (signalOf rt b) responses signals \<and>
           trace = uploads @ signals @
                   [MarkOffset (b_topic b) 0 (endOffset (last responses) + 1) []] @
                   (if autoCommit b then [] else [Commit]) @
                   [SetBytesProcessed totalBytes, SetMsgsProcessed totalMsgs] \<and>
           (keepsOffset (messageTransformer b) \<and>
            (maskMessages b \<longrightarrow> keepsOffset (msgMasker b)) \<and> last msgBufs \<noteq> [] \<longrightarrow>
              endOffset (last responses) = Offset (last (last msgBufs)))"
proof -
  from Process_round_NextRound [OF assms] obtain responses uploads signals tb tm where
    sb: "startBatches rt b msgBufs 0 = (responses, uploads, None)" and
    ne: "responses \<noteq> []" and ok: "\<forall>r\<in>set responses. err r = None" and
    sa: "signalAll rt b responses = (signals, True)" and
    tr: "trace = uploads @ signals @
           markOffset b (b_topic b) 0 (endOffset (last responses)) (autoCommit b) @
           [SetBytesProcessed tb, SetMsgsProcessed tm]" by blast
  note ran = startBatches_ran [OF sb]
  from ran ne have bne: "msgBufs \<noteq> []" by auto
  have link: "endOffset (last responses) = Offset (last (last msgBufs))"
    if "keepsOffset (messageTransformer b)" "maskMessages b \<longrightarrow> keepsOffset (msgMasker b)"
       "last msgBufs \<noteq> []"
  proof -
    from list_all2_last [OF ran bne] have "ranAs rt b (last msgBufs) (last responses)" .
    from ranAs_endOffset [OF this _ that(1,2)] ok ne that(3) show ?thesis by simp
  qed
  have "trace = uploads @ signals @
                [MarkOffset (b_topic b) 0 (endOffset (last responses) + 1) []] @
                (if autoCommit b then [] else [Commit]) @
                [SetBytesProcessed tb, SetMsgsProcessed tm]"
    using tr by (simp add: markOffset_def)
  with ran ne ok startBatches_ok [OF sb ok] signalAll_done [OF sa] link
  show ?thesis by blast
qed

lemma scenario_happy_round:
  "Process_round scenario_rt (scenario_b 0)
     [[scenario_record 0 100 7, scenario_record 0 101 7]] = (NextRound, scenario_happy_trace)"
  by code_simp

lemma scenario_upload_fails_round:
  "Process_round scenario_rt scenario_b_upload_fails
     [[scenario_record 0 100 7, scenario_record 0 101 7]] =
     (Returned, [SignalerClose, ErrChanSend [ErrS3Write ''access denied'']])"
  by code_simp

lemma scenario_signal_fails_round:
  "Process_round scenario_rt scenario_b_signal_fails
     [[scenario_record 0 100 7, scenario_record 0 101 7]] =
     (Returned,
      [Uploaded ''bucketDir/g1-batcher/orders/100_offset_0_partition.json.gz''
         (''{}'' @ [CHR 0x0A] @ ''{}'' @ [CHR 0x0A]),
       ErrChanSend [ErrExternal ''broker not available''], SignalerClose])"
  by code_simp

section \<open>Claims on the batcher\<close>

text \<open>
  C1. A round that goes on to the next round has, for every buffer read, a response
  without error; its trace is the uploads of all responses, then the Load-Job signals of
  all responses, then the mark of the offset \<open>endOffset + 1\<close> of the last response on
  the topic, then the commit when auto-commit is off, then the metrics. Each upload is
  the one call of the sink's \<open>uploader\<close> on the compressed body under the response's
  key, and that call returned no error; each signal is the one call of the \<open>signaler\<close>
  with the job of the response, and that call returned no error. A round that ends in
  any other way neither marks nor commits. When the transformers keep offsets and the
  last buffer is not empty, the end offset marked is the offset of the last record of
  the last buffer. In the scenario of the two records at offsets 100 and 101, the round
  is read by \<open>drain\<close> as one buffer and marks and commits 102; with an object store that
  refuses the upload, or a signal producer that refuses the job, the round reports the
  error and returns with no mark and no commit.
\<close>

theorem round_marks_last_endOffset:
  "(\<forall>rt b msgBufs trace.
      Process_round rt b msgBufs = (NextRound, trace) \<longrightarrow>
      (\<exists>responses uploads signals totalBytes totalMsgs.
         list_all2 (ranAs rt b) msgBufs responses \<and> responses \<noteq> [] \<and>
         (\<forall>r\<in>set responses. err r = None) \<and>
         list_all2 (uploadOf rt b) responses uploads \<and>
         list_all2 (signalOf rt b) responses signals \<and>
         trace = uploads @ signals @
                 [MarkOffset (b_topic b) 0 (endOffset (last responses) + 1) []] @
                 (if autoCommit b then [] else [Commit]) @
                 [SetBytesProcessed totalBytes, SetMsgsProcessed totalMsgs] \<and>
         (keepsOffset (messageTransformer b) \<and>
          (maskMessages b \<longrightarrow> keepsOffset (msgMasker b)) \<and> last msgBufs \<noteq> [] \<longrightarrow>
            endOffset (last responses) = Offset (last (last msgBufs))))) \<and>
   drain (scenario_b 0) [Recv [scenario_record 0 100 7, scenario_record 0 101 7]] [] =
     Drained [[scenario_record 0 100 7, scenario_record 0 101 7]] [] \<and>
   Process_round scenario_rt (scenario_b 0)
     [[scenario_record 0 100 7, scenario_record 0 101 7]] = (NextRound, scenario_happy_trace) \<and>
   (\<forall>rt b msgBufs.
      fst (Process_round rt b msgBufs) \<noteq> NextRound \<longrightarrow>
      filter marksOrCommits (snd (Process_round rt b msgBufs)) = []) \<and>
   Process_round scenario_rt scenario_b_upload_fails
     [[scenario_record 0 100 7, scenario_record 0 101 7]] =
     (Returned, [SignalerClose, ErrChanSend [ErrS3Write ''access denied'']]) \<and>
   Process_round scenario_rt scenario_b_signal_fails
     [[scenario_record 0 100 7, scenario_record 0 101 7]] =
     (Returned,
      [Uploaded ''bucketDir/g1-batcher/orders/100_offset_0_partition.json.gz''
         (''{}'' @ [CHR 0x0A] @ ''{}'' @ [CHR 0x0A]),
       ErrChanSend [ErrExternal ''broker not available''], SignalerClose])"
proof (intro conjI allI impI)
  fix rt b msgBufs trace
  assume "Process_round rt b msgBufs = (NextRound, trace)"
  then show "\<exists>responses uploads signals totalBytes totalMsgs.
         list_all2 (ranAs rt b) msgBufs responses \<and> responses \<noteq> [] \<and>
         (\<forall>r\<in>set responses. err r = None) \<and>
         list_all2 (uploadOf rt b) responses uploads \<and>
         list_all2 (signalOf rt b) responses signals \<and>
         trace = uploads @ signals @
                 [MarkOffset (b_topic b) 0 (endOffset (last responses) + 1) []] @
                 (if autoCommit b then [] else [Commit]) @
                 [SetBytesProcessed totalBytes, SetMsgsProcessed totalMsgs] \<and>
         (keepsOffset (messageTransformer b) \<and>
          (maskMessages b \<longrightarrow> keepsOffset (msgMasker b)) \<and> last msgBufs \<noteq> [] \<longrightarrow>
            endOffset (last responses) = Offset (last (last msgBufs)))"
    by (rule Process_round_success)
next
  show "drain (scenario_b 0) [Recv [scenario_record 0 100 7, scenario_record 0 101 7]] [] =
     Drained [[scenario_record 0 100 7, scenario_record 0 101 7]] []"
    by (simp add: scenario_b_def)
next
  show "Process_round scenario_rt (scenario_b 0)
     [[scenario_record 0 100 7, scenario_record 0 101 7]] = (NextRound, scenario_happy_trace)"
    by (rule scenario_happy_round)
next
  fix rt b msgBufs
  assume n: "fst (Process_round rt b msgBufs) \<noteq> NextRound"
  obtain out trace where pr: "Process_round rt b msgBufs = (out, trace)" by (metis prod.exhaust)
  with n have "out \<noteq> NextRound" by simp
  from Process_round_no_mark [OF pr this] pr
  show "filter marksOrCommits (snd (Process_round rt b msgBufs)) = []"
    by (simp add: filter_empty_conv)
next
  show "Process_round scenario_rt scenario_b_upload_fails
     [[scenario_record 0 100 7, scenario_record 0 101 7]] =
     (Returned, [SignalerClose, ErrChanSend [ErrS3Write ''access denied'']])"
    by (rule scenario_upload_fails_round)
next
  show "Process_round scenario_rt scenario_b_signal_fails
     [[scenario_record 0 100 7, scenario_record 0 101 7]] =
     (Returned,
      [Uploaded ''bucketDir/g1-batcher/orders/100_offset_0_partition.json.gz''
         (''{}'' @ [CHR 0x0A] @ ''{}'' @ [CHR 0x0A]),
       ErrChanSend [ErrExternal ''broker not available''], SignalerClose])"
    by (rule scenario_signal_fails_round)
qed

theorem round_marks_last_endOffset_witness:
  "Process_round scenario_rt (scenario_b 0)
     [[scenario_record 0 100 7, scenario_record 0 101 7]] = (NextRound, scenario_happy_trace) \<and>
   keepsOffset (messageTransformer (scenario_b 0)) \<and>
   \<not> maskMessages (scenario_b 0) \<and>
   last [[scenario_record 0 100 7, scenario_record 0 101 7]] \<noteq> [] \<and>
   (\<exists>responses uploads signals totalBytes totalMsgs.
      list_all2 (ranAs scenario_rt (scenario_b 0))
        [[scenario_record 0 100 7, scenario_record 0 101 7]] responses \<and>
      list_all2 (uploadOf scenario_rt (scenario_b 0)) responses uploads \<and>
      list_all2 (signalOf scenario_rt (scenario_b 0)) responses signals \<and>
      endOffset (last responses) = 101 \<and>
      scenario_happy_trace = uploads @ signals @
        [MarkOffset ''orders'' 0 102 [], Commit,
         SetBytesProcessed totalBytes, SetMsgsProcessed totalMsgs]) \<and>
   fst (Process_round scenario_rt scenario_b_upload_fails
          [[scenario_record 0 100 7, scenario_record 0 101 7]]) \<noteq> NextRound \<and>
   filter marksOrCommits
     (snd (Process_round scenario_rt scenario_b_upload_fails
             [[scenario_record 0 100 7, scenario_record 0 101 7]])) = []"
proof -
  have h: "Process_round scenario_rt (scenario_b 0)
     [[scenario_record 0 100 7, scenario_record 0 101 7]] = (NextRound, scenario_happy_trace)"
    by (rule scenario_happy_round)
  have k: "keepsOffset (messageTransformer (scenario_b 0))"
    "\<not> maskMessages (scenario_b 0)"
    by (simp_all add: keepsOffset_def scenario_b_def)
  have l: "last [[scenario_record 0 100 7, scenario_record 0 101 7]] \<noteq> []" by simp
  from round_marks_last_endOffset [THEN conjunct1, rule_format, OF h]
  obtain responses uploads signals tb tm where
    a: "list_all2 (ranAs scenario_rt (scenario_b 0))
          [[scenario_record 0 100 7, scenario_record 0 101 7]] responses"
       "list_all2 (uploadOf scenario_rt (scenario_b 0)) responses uploads"
       "list_all2 (signalOf scenario_rt (scenario_b 0)) responses signals" and
    tr: "scenario_happy_trace = uploads @ signals @
           [MarkOffset (b_topic (scenario_b 0)) 0 (endOffset (last responses) + 1) []] @
           (if autoCommit (scenario_b 0) then [] else [Commit]) @
           [SetBytesProcessed tb, SetMsgsProcessed tm]" and
    e: "keepsOffset (messageTransformer (scenario_b 0)) \<and>
        (maskMessages (scenario_b 0) \<longrightarrow> keepsOffset (msgMasker (scenario_b 0))) \<and>
        last [[scenario_record 0 100 7, scenario_record 0 101 7]] \<noteq> [] \<longrightarrow>
        endOffset (last responses) = Offset (last (last [[scenario_record 0 100 7, scenario_record 0 101 7]]))"
    by blast
  from e k l have e1: "endOffset (last responses) = 101" by (simp add: scenario_record_def)
  from tr e1 have t1: "scenario_happy_trace = uploads @ signals @
        [MarkOffset ''orders'' 0 102 [], Commit, SetBytesProcessed tb, SetMsgsProcessed tm]"
    by (simp add: scenario_b_def)
  have f: "fst (Process_round scenario_rt scenario_b_upload_fails
          [[scenario_record 0 100 7, scenario_record 0 101 7]]) \<noteq> NextRound"
    by (simp add: scenario_upload_fails_round)
  from round_marks_last_endOffset
  have "\<forall>rt b msgBufs.
      fst (Process_round rt b msgBufs) \<noteq> NextRound \<longrightarrow>
      filter marksOrCommits (snd (Process_round rt b msgBufs)) = []" by blast
  with f have g: "filter marksOrCommits
     (snd (Process_round scenario_rt scenario_b_upload_fails
             [[scenario_record 0 100 7, scenario_record 0 101 7]])) = []" by blast
  from a e1 t1
  have ex: "\<exists>responses uploads signals totalBytes totalMsgs.
      list_all2 (ranAs scenario_rt (scenario_b 0))
        [[scenario_record 0 100 7, scenario_record 0 101 7]] responses \<and>
      list_all2 (uploadOf scenario_rt (scenario_b 0)) responses uploads \<and>
      list_all2 (signalOf scenario_rt (scenario_b 0)) responses signals \<and>
      endOffset (last responses) = 101 \<and>
      scenario_happy_trace = uploads @ signals @
        [MarkOffset ''orders'' 0 102 [], Commit,
         SetBytesProcessed totalBytes, SetMsgsProcessed totalMsgs]" by blast
  from h k l ex f g show ?thesis by simp
qed

lemma processBatch_mismatch_error:
  assumes buf: "msgBuf = pre @ m # post" and pre: "pre \<noteq> []"
    and diff: "SchemaId m \<noteq> SchemaId (hd pre)"
    and nb: "\<not> ctxDone rt (AtBatch (i + 1))"
    and pm: "processMessages rt b pre (newResponse i) = Inr ((n, None), r1)"
    and nm: "\<not> ctxDone rt (AtMessage (i + 1) (int (length pre)))"
  shows "processBatch rt b msgBuf (newResponse i) =
           Inr (r1\<lparr>bytesProcessed := n,
                   err := Some (ErrSchemaIdMismatch (b_topic b) (SchemaId (hd pre)) (SchemaId m))\<rparr>,
                [])"
proof -
  from pre obtain p0 prest where p: "pre = p0 # prest" by (cases pre) auto
  note lp = pm [unfolded processMessages_def]
  from loop_fresh_ok [OF newResponse_fields(2) lp [unfolded p]] p
  have k: "s3Key r1 \<noteq> []" and s: "batchSchemaID r1 = SchemaId (hd pre)"
    by (simp_all add: batchKey_not_Nil)
  from loop_fields [OF lp] have id: "batchID r1 = i + 1" by (simp add: newResponse_fields)
  from s diff have d: "batchSchemaID r1 \<noteq> SchemaId m" by simp
  have "processMessages_loop rt b (pre @ m # post) 0 0 (newResponse i) =
          processMessages_loop rt b (m # post) (0 + int (length pre)) n r1"
    by (rule loop_append [OF lp])
  also have "\<dots> = Inr ((n, Some (ErrSchemaIdMismatch (b_topic b) (batchSchemaID r1) (SchemaId m))), r1)"
    using nm id processMessage_mismatch [OF k d] by simp
  finally have "processMessages rt b msgBuf (newResponse i) =
      Inr ((n, Some (ErrSchemaIdMismatch (b_topic b) (SchemaId (hd pre)) (SchemaId m))), r1)"
    by (simp add: processMessages_def buf s)
  with nb show ?thesis
    by (simp add: processBatch_def ctxCancelled_def newResponse_fields)
qed

text \<open>
  C2, as amended. A buffer with mixed schemas never yields an upload and never lets the
  round mark or commit: its batch ends with an error on its response (or with the fatal
  exit), and the round does not go on. The error is the schema-id mismatch of the first
  record that differs when the batch gets that far: the session is not cancelled at the
  batch or at that record and the records before it are processed without error.
\<close>

theorem mixed_schema_no_upload_no_mark:
  assumes "mixedSchema msgBuf"
  shows "(\<forall>resp evs. processBatch rt b msgBuf (newResponse i) = Inr (resp, evs) \<longrightarrow>
            err resp \<noteq> None \<and> evs = []) \<and>
         (msgBuf \<in> set msgBufs \<longrightarrow>
            fst (Process_round rt b msgBufs) \<noteq> NextRound \<and>
            (\<forall>ev\<in>set (snd (Process_round rt b msgBufs)). \<not> marksOrCommits ev)) \<and>
         (\<forall>pre m post n r1.
            msgBuf = pre @ m # post \<and> pre \<noteq> [] \<and> SchemaId m \<noteq> SchemaId (hd pre) \<and>
            \<not> ctxDone rt (AtBatch (i + 1)) \<and>
            processMessages rt b pre (newResponse i) = Inr ((n, None), r1) \<and>
            \<not> ctxDone rt (AtMessage (i + 1) (int (length pre))) \<longrightarrow>
            processBatch rt b msgBuf (newResponse i) =
              Inr (r1\<lparr>bytesProcessed := n,
                      err := Some (ErrSchemaIdMismatch (b_topic b) (SchemaId (hd pre)) (SchemaId m))\<rparr>,
                   []))"
proof (intro conjI allI impI)
  fix resp evs
  assume "processBatch rt b msgBuf (newResponse i) = Inr (resp, evs)"
  from processBatch_mixed [OF assms this] show "err resp \<noteq> None" "evs = []" by simp_all
next
  assume "msgBuf \<in> set msgBufs"
  from Process_round_mixed [OF this assms] show n: "fst (Process_round rt b msgBufs) \<noteq> NextRound" .
  obtain out trace where pr: "Process_round rt b msgBufs = (out, trace)" by (metis prod.exhaust)
  with n have "out \<noteq> NextRound" by simp
  from Process_round_no_mark [OF pr this] pr
  show "\<forall>ev\<in>set (snd (Process_round rt b msgBufs)). \<not> marksOrCommits ev" by simp
next
  fix pre m post n r1
  assume "msgBuf = pre @ m # post \<and> pre \<noteq> [] \<and> SchemaId m \<noteq> SchemaId (hd pre) \<and>
            \<not> ctxDone rt (AtBatch (i + 1)) \<and>
            processMessages rt b pre (newResponse i) = Inr ((n, None), r1) \<and>
            \<not> ctxDone rt (AtMessage (i + 1) (int (length pre)))"
  then show "processBatch rt b msgBuf (newResponse i) =
              Inr (r1\<lparr>bytesProcessed := n,
                      err := Some (ErrSchemaIdMismatch (b_topic b) (SchemaId (hd pre)) (SchemaId m))\<rparr>,
                   [])"
    using processBatch_mismatch_error by blast
qed

lemma scenario_mixed_round:
  "Process_round scenario_rt (scenario_b 0)
     [[scenario_record 0 5 7, scenario_record 0 6 7, scenario_record 0 7 8]] =
   (Returned, [SignalerClose, ErrChanSend [ErrSchemaIdMismatch ''orders'' 7 8]])"
  by code_simp

theorem mixed_schema_no_upload_no_mark_witness:
  "mixedSchema [scenario_record 0 5 7, scenario_record 0 6 7, scenario_record 0 7 8] \<and>
   Process_round scenario_rt (scenario_b 0)
     [[scenario_record 0 5 7, scenario_record 0 6 7, scenario_record 0 7 8]] =
   (Returned, [SignalerClose, ErrChanSend [ErrSchemaIdMismatch ''orders'' 7 8]]) \<and>
   (\<exists>r1. processBatch scenario_rt (scenario_b 0)
            [scenario_record 0 5 7, scenario_record 0 6 7, scenario_record 0 7 8] (newResponse 0) =
          Inr (r1\<lparr>bytesProcessed := 20, err := Some (ErrSchemaIdMismatch ''orders'' 7 8)\<rparr>, []))"
proof -
  let ?buf = "[scenario_record 0 5 7, scenario_record 0 6 7, scenario_record 0 7 8]"
  have mx: "mixedSchema ?buf" by (simp add: mixedSchema_def scenario_record_def)
  have "case processMessages scenario_rt (scenario_b 0)
               [scenario_record 0 5 7, scenario_record 0 6 7] (newResponse 0) of
          Inl f \<Rightarrow> False
        | Inr ((n, e), r) \<Rightarrow> n = 20 \<and> e = None"
    by code_simp
  then obtain r1 where pm: "processMessages scenario_rt (scenario_b 0)
      [scenario_record 0 5 7, scenario_record 0 6 7] (newResponse 0) = Inr ((20, None), r1)"
    by (auto split: sum.splits prod.splits)
  have "?buf = [scenario_record 0 5 7, scenario_record 0 6 7] @ scenario_record 0 7 8 # [] \<and>
        [scenario_record 0 5 7, scenario_record 0 6 7] \<noteq> [] \<and>
        SchemaId (scenario_record 0 7 8) \<noteq> SchemaId (hd [scenario_record 0 5 7, scenario_record 0 6 7]) \<and>
        \<not> ctxDone scenario_rt (AtBatch (0 + 1)) \<and>
        processMessages scenario_rt (scenario_b 0) [scenario_record 0 5 7, scenario_record 0 6 7]
          (newResponse 0) = Inr ((20, None), r1) \<and>
        \<not> ctxDone scenario_rt (AtMessage (0 + 1) (int (length [scenario_record 0 5 7, scenario_record 0 6 7])))"
    using pm by (simp add: scenario_record_def scenario_rt_def)
  with mixed_schema_no_upload_no_mark [OF mx, of scenario_rt "scenario_b 0" 0 "[?buf]",
      THEN conjunct2, THEN conjunct2, rule_format, of "[scenario_record 0 5 7, scenario_record 0 6 7]"
        "scenario_record 0 7 8" "[]" 20 r1]
  have "processBatch scenario_rt (scenario_b 0) ?buf (newResponse 0) =
          Inr (r1\<lparr>bytesProcessed := 20, err := Some (ErrSchemaIdMismatch ''orders'' 7 8)\<rparr>, [])"
    by (simp add: scenario_b_def scenario_record_def)
  with mx scenario_mixed_round show ?thesis by blast
qed

text \<open>
  The claim as it stands fails when the batch does not get as far as the record that
  differs: with a schema transformer that returns an error for the first record, the
  buffer of the second scenario ends with that error, not with the schema-id mismatch.
\<close>

theorem mixed_schema_other_error_counterexample:
  "mixedSchema [scenario_record 0 5 7, scenario_record 0 6 7, scenario_record 0 7 8] \<and>
   Process_round scenario_rt scenario_b_registry_down
     [[scenario_record 0 5 7, scenario_record 0 6 7, scenario_record 0 7 8]] =
   (Returned, [SignalerClose, ErrChanSend [ErrTransformSchema 7 ''registry unavailable'']])"
  by (simp add: mixedSchema_def scenario_record_def) code_simp

lemma no_mark_in:
  "\<forall>ev\<in>set xs. \<not> marksOrCommits ev \<Longrightarrow> MarkOffset t p off meta \<notin> set xs"
proof
  assume a: "\<forall>ev\<in>set xs. \<not> marksOrCommits ev" and "MarkOffset t p off meta \<in> set xs"
  then have "\<not> marksOrCommits (MarkOffset t p off meta)" by (rule bspec)
  then show False by simp
qed

text \<open>
  C10. Every mark of a round is on the processor's topic and on partition 0, whatever
  partition the processor was created for; a round that goes on has marked there; and
  for a processor on another partition no offset is marked under that partition.
\<close>

theorem mark_is_on_partition_zero:
  "(\<forall>ev\<in>set (snd (Process_round rt b msgBufs)).
      \<forall>t p off meta. ev = MarkOffset t p off meta \<longrightarrow> t = b_topic b \<and> p = 0) \<and>
   (fst (Process_round rt b msgBufs) = NextRound \<longrightarrow>
      (\<exists>off. MarkOffset (b_topic b) 0 off [] \<in> set (snd (Process_round rt b msgBufs)))) \<and>
   (b_partition b \<noteq> 0 \<longrightarrow>
      (\<forall>t off meta. MarkOffset t (b_partition b) off meta \<notin> set (snd (Process_round rt b msgBufs))))"
proof -
  obtain out trace where pr: "Process_round rt b msgBufs = (out, trace)" by (metis prod.exhaust)
  have marks: "t = b_topic b \<and> p = 0" if m: "MarkOffset t p off meta \<in> set trace" for t p off meta
  proof (cases "out = NextRound")
    case False
    from no_mark_in [OF Process_round_no_mark [OF pr False]] m show ?thesis by simp
  next
    case True
    from Process_round_NextRound [OF pr [unfolded True]] obtain responses uploads signals tb tm where
      sb: "startBatches rt b msgBufs 0 = (responses, uploads, None)" and
      sa: "signalAll rt b responses = (signals, True)" and
      tr: "trace = uploads @ signals @
             markOffset b (b_topic b) 0 (endOffset (last responses)) (autoCommit b) @
             [SetBytesProcessed tb, SetMsgsProcessed tm]" by blast
    have u: "MarkOffset t p off meta \<notin> set uploads"
      by (rule no_mark_in [OF startBatches_uploads [OF sb]])
    have s: "MarkOffset t p off meta \<notin> set signals"
      by (rule no_mark_in [OF signalAll_events [OF sa]])
    from m u s have "MarkOffset t p off meta \<in>
        set (markOffset b (b_topic b) 0 (endOffset (last responses)) (autoCommit b))"
      unfolding tr by simp
    then show ?thesis by (simp add: markOffset_def split: if_splits)
  qed
  have ex: "\<exists>off. MarkOffset (b_topic b) 0 off [] \<in> set trace" if "out = NextRound"
  proof -
    from Process_round_NextRound [OF pr [unfolded that]] obtain responses uploads signals tb tm where
      sb: "startBatches rt b msgBufs 0 = (responses, uploads, None)" and
      sa: "signalAll rt b responses = (signals, True)" and
      tr: "trace = uploads @ signals @
             markOffset b (b_topic b) 0 (endOffset (last responses)) (autoCommit b) @
             [SetBytesProcessed tb, SetMsgsProcessed tm]" by blast
    have "MarkOffset (b_topic b) 0 (endOffset (last responses) + 1) [] \<in> set trace"
      unfolding tr by (simp add: markOffset_def)
    then show ?thesis ..
  qed
  have c1: "\<forall>ev\<in>set trace. \<forall>t p off meta. ev = MarkOffset t p off meta \<longrightarrow> t = b_topic b \<and> p = 0"
    using marks by blast
  have c3: "b_partition b \<noteq> 0 \<longrightarrow> (\<forall>t off meta. MarkOffset t (b_partition b) off meta \<notin> set trace)"
    using marks by blast
  from c1 ex c3 show ?thesis unfolding pr by simp
qed

lemma scenario_partition3_round:
  "Process_round scenario_rt (scenario_b 3) [[scenario_record 3 100 7, scenario_record 3 101 7]] =
   (NextRound,
     [Uploaded ''bucketDir/g1-batcher/orders/100_offset_3_partition.json.gz''
        (''{}'' @ [CHR 0x0A] @ ''{}'' @ [CHR 0x0A]),
      Signalled ''loader-orders'' ''now''
        \<lparr> upstreamTopic = ''orders'', jobStartOffset = 100, jobEndOffset = 101, csvDialect = '','',
          s3Path = ''s3://bucket/bucketDir/g1-batcher/orders/100_offset_3_partition.json.gz'',
          schemaId = 7, schemaIdKey = 2, jobMaskSchema = [], jobExtraMaskSchema = [],
          jobSkipMerge = False, batchBytes = 20, jobCreateEvents = 2, jobUpdateEvents = 0,
          jobDeleteEvents = 0 \<rparr>,
      MarkOffset ''orders'' 0 102 [], Commit, SetBytesProcessed 20, SetMsgsProcessed 2])"
  by code_simp

theorem mark_is_on_partition_zero_witness:
  "b_partition (scenario_b 3) \<noteq> 0 \<and>
   fst (Process_round scenario_rt (scenario_b 3)
          [[scenario_record 3 100 7, scenario_record 3 101 7]]) = NextRound \<and>
   MarkOffset ''orders'' 0 102 [] \<in>
     set (snd (Process_round scenario_rt (scenario_b 3)
                 [[scenario_record 3 100 7, scenario_record 3 101 7]])) \<and>
   MarkOffset ''orders'' 3 102 [] \<notin>
     set (snd (Process_round scenario_rt (scenario_b 3)
                 [[scenario_record 3 100 7, scenario_record 3 101 7]]))"
proof -
  let ?r = "Process_round scenario_rt (scenario_b 3)
              [[scenario_record 3 100 7, scenario_record 3 101 7]]"
  have p: "b_partition (scenario_b 3) \<noteq> 0" by (simp add: scenario_b_def)
  have n: "fst ?r = NextRound" by (simp add: scenario_partition3_round)
  have m: "MarkOffset ''orders'' 0 102 [] \<in> set (snd ?r)" by (simp add: scenario_partition3_round)
  from mark_is_on_partition_zero [of scenario_rt "scenario_b 3"
      "[[scenario_record 3 100 7, scenario_record 3 101 7]]", THEN conjunct2, THEN conjunct2] p
  have "MarkOffset ''orders'' (b_partition (scenario_b 3)) 102 [] \<notin> set (snd ?r)" by blast
  then have "MarkOffset ''orders'' 3 102 [] \<notin> set (snd ?r)" by (simp add: scenario_b_def)
  with p n m show ?thesis by blast
qed

text \<open>
  C7, as amended. \<open>constructS3key\<close> is \<open>filepath.Join\<close> of the bucket directory, the
  consumer group, the topic, the mask file version when it is not empty, and the file
  name \<open>{offset}_offset_{partition}_partition.json.gz\<close>; it is a function of these six
  values. It is the text of the template whenever the bucket directory is a plain path
  and the other segments are plain path elements. The key of a batch is empty or the
  key built from the first record of its buffer, and an upload is under that key.
\<close>

theorem constructS3key_is_joined_path:
  "constructS3key mv dir g t p off =
     filepath_Join ([dir, g, t] @ (if mv = [] then [] else [mv]) @ [s3FileName off p]) \<and>
   (plainPath dir \<and> plainElem g \<and> plainElem t \<and> (mv = [] \<or> plainElem mv) \<longrightarrow>
      constructS3key mv dir g t p off = s3KeyTemplate mv dir g t p off) \<and>
   (\<forall>rt b m0 rest i resp evs.
      processBatch rt b (m0 # rest) (newResponse i) = Inr (resp, evs) \<longrightarrow>
      (s3Key resp = [] \<or> s3Key resp = batchKey rt b m0) \<and>
      (evs = [] \<or> (\<exists>body. evs = [Uploaded (batchKey rt b m0) body])))"
proof (intro conjI allI impI)
  show "constructS3key mv dir g t p off =
     filepath_Join ([dir, g, t] @ (if mv = [] then [] else [mv]) @ [s3FileName off p])"
    by (simp add: constructS3key_def Let_def)
next
  assume "plainPath dir \<and> plainElem g \<and> plainElem t \<and> (mv = [] \<or> plainElem mv)"
  then show "constructS3key mv dir g t p off = s3KeyTemplate mv dir g t p off"
    by (intro constructS3key_template) simp_all
next
  fix rt b m0 rest i resp evs
  assume "processBatch rt b (m0 # rest) (newResponse i) = Inr (resp, evs)"
  from processBatch_key [OF this]
  show "s3Key resp = [] \<or> s3Key resp = batchKey rt b m0"
    "evs = [] \<or> (\<exists>body. evs = [Uploaded (batchKey rt b m0) body])" by simp_all
qed

theorem constructS3key_is_joined_path_witness:
  "plainPath ''bucketDir'' \<and> plainElem ''g1-batcher'' \<and> plainElem ''orders'' \<and> plainElem ''v1'' \<and>
   constructS3key ''v1'' ''bucketDir'' ''g1-batcher'' ''orders'' 0 100 =
     ''bucketDir/g1-batcher/orders/v1/100_offset_0_partition.json.gz'' \<and>
   constructS3key [] ''bucketDir'' ''g1-batcher'' ''orders'' 0 100 =
     ''bucketDir/g1-batcher/orders/100_offset_0_partition.json.gz''"
proof -
  have h: "plainPath ''bucketDir''" "plainElem ''g1-batcher''" "plainElem ''orders''" "plainElem ''v1''"
    by (simp_all add: plainPath_def plainElem_def)
  have t1: "s3KeyTemplate ''v1'' ''bucketDir'' ''g1-batcher'' ''orders'' 0 100 =
     ''bucketDir/g1-batcher/orders/v1/100_offset_0_partition.json.gz''" by code_simp
  have t2: "s3KeyTemplate [] ''bucketDir'' ''g1-batcher'' ''orders'' 0 100 =
     ''bucketDir/g1-batcher/orders/100_offset_0_partition.json.gz''" by code_simp
  from constructS3key_is_joined_path [of "''v1''" "''bucketDir''" "''g1-batcher''" "''orders''" 0 100,
      THEN conjunct2, THEN conjunct1] h t1
  have a: "constructS3key ''v1'' ''bucketDir'' ''g1-batcher'' ''orders'' 0 100 =
     ''bucketDir/g1-batcher/orders/v1/100_offset_0_partition.json.gz''" by simp
  from constructS3key_is_joined_path [of "[]" "''bucketDir''" "''g1-batcher''" "''orders''" 0 100,
      THEN conjunct2, THEN conjunct1] h t2
  have b: "constructS3key [] ''bucketDir'' ''g1-batcher'' ''orders'' 0 100 =
     ''bucketDir/g1-batcher/orders/100_offset_0_partition.json.gz''" by simp
  from h a b show ?thesis by blast
qed

text \<open>
  The claim as it stands fails where \<open>filepath.Join\<close> cleans the path: for a bucket
  directory with a trailing separator the template has two separators in a row and the
  key has one.
\<close>

theorem constructS3key_trailing_separator_counterexample:
  "constructS3key [] ''bucketDir/'' ''g1-batcher'' ''orders'' 0 100 =
     ''bucketDir/g1-batcher/orders/100_offset_0_partition.json.gz'' \<and>
   s3KeyTemplate [] ''bucketDir/'' ''g1-batcher'' ''orders'' 0 100 =
     ''bucketDir//g1-batcher/orders/100_offset_0_partition.json.gz'' \<and>
   constructS3key [] ''bucketDir/'' ''g1-batcher'' ''orders'' 0 100 \<noteq>
     s3KeyTemplate [] ''bucketDir/'' ''g1-batcher'' ''orders'' 0 100"
proof -
  have a: "constructS3key [] ''bucketDir/'' ''g1-batcher'' ''orders'' 0 100 =
     ''bucketDir/g1-batcher/orders/100_offset_0_partition.json.gz''" by code_simp
  have b: "s3KeyTemplate [] ''bucketDir/'' ''g1-batcher'' ''orders'' 0 100 =
     ''bucketDir//g1-batcher/orders/100_offset_0_partition.json.gz''" by code_simp
  show ?thesis unfolding a b by simp
qed

section \<open>Claims on the realtime calculator\<close>

text \<open>What the calculator of the scenarios reads.\<close>

lemma scenario_queries:
  "LastOffset (watcher (scenario_calculator lc p cch)) ''orders'' 0 = Inr 1000"
  "CurrentOffset (watcher (scenario_calculator lc p cch))
     (consumerGroupID (Name (rsk (scenario_calculator lc p cch)))
        (Namespace (rsk (scenario_calculator lc p cch))) (ID (scenario_group p)) ''-batcher'')
     ''orders'' 0 = Inr 990"
  "LastOffset (watcher (scenario_calculator lc p cch)) ''loader-reload-orders'' 0 = Inr 5050"
  "CurrentOffset (watcher (scenario_calculator lc p cch))
     (consumerGroupID (Name (rsk (scenario_calculator lc p cch)))
        (Namespace (rsk (scenario_calculator lc p cch))) (ID (scenario_group p)) ''-loader'')
     ''loader-reload-orders'' 0 = lc"
  "topicGroups (scenario_calculator lc p cch) ''orders'' = Some (scenario_group p)"
  "KafkaLoaderTopicPrefix (Spec (rsk (scenario_calculator lc p cch))) @ ID (scenario_group p) @
     ''-'' @ ''orders'' = ''loader-reload-orders''"
  "maxLag dB dL (scenario_calculator lc p cch) ''orders'' = (100, 100)"
  "Topics (watcher (scenario_calculator lc p cch)) = Inr [''orders'', ''loader-reload-orders'']"
  "cache (scenario_calculator lc p cch) = cch"
  "KafkaLoaderTopicPrefix (Spec (rsk (scenario_calculator lc p cch))) = ''loader-''"
  by (simp_all add: scenario_calculator_def calculatorWith_def sinkWith_def scenario_watcher_def
      scenario_group_def maxLag_def Let_def)

lemma maxLag_agrees:
  "ReleaseCondition (Spec (rsk r)) = None \<Longrightarrow> TopicReleaseCondition (Spec (rsk r)) = None \<Longrightarrow>
     maxLag dB dL r topic = specMaxLag dB dL r topic"
  "ReleaseCondition (Spec (rsk r)) = Some rc \<Longrightarrow> MaxBatcherLag rc \<noteq> None \<Longrightarrow>
     MaxLoaderLag rc \<noteq> None \<Longrightarrow> maxLag dB dL r topic = specMaxLag dB dL r topic"
  by (auto simp: maxLag_def specMaxLag_def Let_def split: option.splits)

text \<open>
  C3. The code departs from the precedence in two places. With a global release
  condition that leaves \<open>maxBatcherLag\<close> unset and no condition for the topic,
  \<open>maxLag\<close> returns 0 for the batcher lag where the precedence gives the default. With
  no global release condition, \<open>maxLag\<close> returns the defaults although the topic has a
  condition of its own.
\<close>

theorem maxLag_departs_from_precedence:
  "maxLag dB dL
     (calculatorWith (sinkWith (Some \<lparr> MaxBatcherLag = None, MaxLoaderLag = Some 7 \<rparr>) None)
        w groups cch) ''orders'' = (0, 7) \<and>
   specMaxLag dB dL
     (calculatorWith (sinkWith (Some \<lparr> MaxBatcherLag = None, MaxLoaderLag = Some 7 \<rparr>) None)
        w groups cch) ''orders'' = (dB, 7) \<and>
   maxLag dB dL
     (calculatorWith
        (sinkWith None (Some [''orders'' \<mapsto> \<lparr> MaxBatcherLag = Some 5, MaxLoaderLag = Some 6 \<rparr>]))
        w groups cch) ''orders'' = (dB, dL) \<and>
   specMaxLag dB dL
     (calculatorWith
        (sinkWith None (Some [''orders'' \<mapsto> \<lparr> MaxBatcherLag = Some 5, MaxLoaderLag = Some 6 \<rparr>]))
        w groups cch) ''orders'' = (5, 6)"
  by (simp add: maxLag_def specMaxLag_def calculatorWith_def sinkWith_def Let_def)

lemma sint_seconds:
  assumes "0 \<le> v" and "v < 240"
  shows "sint (time_Second * word_of_int v) = 1000000000 * v"
proof -
  have "time_Second * word_of_int v = (word_of_int (1000000000 * v) :: int64)"
    by (simp add: time_Second_def)
  moreover have "signed_take_bit (LENGTH(64) - 1) (1000000000 * v) = 1000000000 * v"
    using assms by (intro signed_take_bit_int_eq_self) simp_all
  ultimately show ?thesis by (simp only: sint_sbintrunc')
qed

text \<open>
  C6. For an entry of the cache that has a \<open>lastUpdate\<close>, and a draw of
  \<open>rand.Intn(120)\<close> (a value from 0 up to 119): the probe is a hit with the entry
  exactly when less than 120 seconds plus the draw have passed since \<open>lastUpdate\<close>;
  so it is a hit whenever less than 120 seconds have passed, and a miss whenever 240
  seconds or more have passed.
\<close>

theorem cache_valid_between_120_and_240_seconds:
  assumes "cache r topic = Some info" and "lastUpdate info = Some t"
    and "0 \<le> randIntn tk" and "randIntn tk < 120"
  shows "fetchRealtimeCache r tk topic =
           (if sint (nowCache tk) - sint t < 1000000000 * (120 + randIntn tk)
            then (info, True) else (emptyInfo, False)) \<and>
         (sint (nowCache tk) - sint t < 1000000000 * 120 \<longrightarrow>
            fetchRealtimeCache r tk topic = (info, True)) \<and>
         (1000000000 * 240 \<le> sint (nowCache tk) - sint t \<longrightarrow>
            fetchRealtimeCache r tk topic = (emptyInfo, False))"
proof -
  have s: "sint (time_Second * word_of_int (randIntn tk + 120)) = 1000000000 * (randIntn tk + 120)"
    using assms(3,4) by (intro sint_seconds) simp_all
  have e: "fetchRealtimeCache r tk topic =
           (if sint (nowCache tk) - sint t < 1000000000 * (120 + randIntn tk)
            then (info, True) else (emptyInfo, False))"
    using assms(1,2) s by (simp add: fetchRealtimeCache_def cacheValid_def Let_def add.commute)
  show ?thesis using e assms(3,4) by auto
qed

theorem cache_valid_between_120_and_240_seconds_witness:
  "cache (scenario_calculator (Inr 5040) None [''orders'' \<mapsto> keptRealtime 0]) ''orders'' =
     Some (keptRealtime 0) \<and>
   lastUpdate (keptRealtime 0) = Some 0 \<and>
   0 \<le> randIntn (scenario_tick 60000000000) \<and> randIntn (scenario_tick 60000000000) < 120 \<and>
   fetchRealtimeCache (scenario_calculator (Inr 5040) None [''orders'' \<mapsto> keptRealtime 0])
     (scenario_tick 60000000000) ''orders'' = (keptRealtime 0, True) \<and>
   fetchRealtimeCache (scenario_calculator (Inr 5040) None [''orders'' \<mapsto> keptRealtime 0])
     (scenario_tick 300000000000) ''orders'' = (emptyInfo, False)"
proof -
  let ?r = "scenario_calculator (Inr 5040) None [''orders'' \<mapsto> keptRealtime 0]"
  have c: "cache ?r ''orders'' = Some (keptRealtime 0)" by (simp add: scenario_queries)
  have l: "lastUpdate (keptRealtime 0) = Some 0" by (simp add: keptRealtime_def)
  have rn: "0 \<le> randIntn (scenario_tick n)" "randIntn (scenario_tick n) < 120" for n
    by (simp_all add: scenario_tick_def)
  from cache_valid_between_120_and_240_seconds [OF c l rn, of 60000000000,
      THEN conjunct2, THEN conjunct1]
  have a: "fetchRealtimeCache ?r (scenario_tick 60000000000) ''orders'' = (keptRealtime 0, True)"
    by (simp add: scenario_tick_def)
  from cache_valid_between_120_and_240_seconds [OF c l rn, of 300000000000,
      THEN conjunct2, THEN conjunct2]
  have b: "fetchRealtimeCache ?r (scenario_tick 300000000000) ''orders'' = (emptyInfo, False)"
    by (simp add: scenario_tick_def)
  from c l rn a b show ?thesis by simp
qed

lemma fetchRealtimeInfo_error:
  assumes "fetchRealtimeInfo r tk topic loaderTopic grp = ((info, Some e), sink)"
  shows "sink = rsk r \<and> \<not> batcherRealtime info \<and> \<not> loaderRealtime info \<and>
         (\<exists>pos. loader info = Some pos \<and> op_current pos = None)"
  using assms unfolding fetchRealtimeInfo_def Let_def
  by (auto split: sum.splits if_splits option.splits)

lemma batcherSide_loader:
  "batcherSide maxB topic info r = (info1, r1) \<Longrightarrow>
   loader info1 = loader info \<and> loaderRealtime info1 = loaderRealtime info"
  unfolding batcherSide_def Let_def
  by (auto split: option.splits if_splits prod.splits)

lemma loaderSide_no_current:
  "loader info = Some pos \<Longrightarrow> op_current pos = None \<Longrightarrow>
   loaderSide maxL ltopic info r = (info2, r2) \<Longrightarrow> loaderRealtime info2 = loaderRealtime info"
  unfolding loaderSide_def Let_def
  by (auto split: option.splits if_splits prod.splits)

lemma calculateTopic_miss:
  assumes g: "topicGroups r topic = Some grp"
    and miss: "snd (fetchRealtimeCache r tk topic) = False"
    and f: "fetchRealtimeInfo r tk topic
              (findLoaderTopic allTopicsMap
                 (KafkaLoaderTopicPrefix (Spec (rsk r)) @ ID grp @ ''-'' @ topic)) grp
            = ((info, fetchErr), sink)"
  shows "calculateTopic dB dL allTopicsMap current tk topic (r, rts) =
     (let ltopic = KafkaLoaderTopicPrefix (Spec (rsk r)) @ ID grp @ ''-'' @ topic;
          r1 = r\<lparr>rsk := sink\<rparr>
      in if fetchErr \<noteq> None \<and> current topic \<noteq> None
         then (r1\<lparr>cache := (cache r1)(topic \<mapsto>
                      \<lparr> lastUpdate = Some (nowLoop tk), batcher = None, loader = None,
                        batcherRealtime = True, loaderRealtime = True \<rparr>),
                    batchersRealtime := batchersRealtime r1 @ [topic],
                    loadersRealtime := loadersRealtime r1 @ [ltopic]\<rparr>,
               rts @ [topic])
         else
           (let (maxBatcherLag, maxLoaderLag) = maxLag dB dL r1 topic;
                (info1, r2) = batcherSide maxBatcherLag topic info r1;
                (info2, r3) = loaderSide maxLoaderLag ltopic info1 r2
            in (r3\<lparr>cache := (cache r3)(topic \<mapsto> info2\<lparr>lastUpdate := Some (nowLoop tk)\<rparr>)\<rparr>,
                if batcherRealtime info2 \<and> loaderRealtime info2 then rts @ [topic] else rts)))"
proof -
  obtain c where c: "fetchRealtimeCache r tk topic = (c, False)"
    using miss by (cases "fetchRealtimeCache r tk topic") auto
  show ?thesis
    unfolding calculateTopic_def using g c f
    by (simp add: Let_def split: prod.splits)
qed

lemma calculateTopic_fetch_error:
  assumes g: "topicGroups r topic = Some grp"
    and miss: "snd (fetchRealtimeCache r tk topic) = False"
    and f: "fetchRealtimeInfo r tk topic
              (findLoaderTopic allTopicsMap
                 (KafkaLoaderTopicPrefix (Spec (rsk r)) @ ID grp @ ''-'' @ topic)) grp
            = ((info, Some e), sink)"
  shows "(current topic \<noteq> None \<longrightarrow>
            calculateTopic dB dL allTopicsMap current tk topic (r, rts) =
              (r\<lparr>cache := (cache r)(topic \<mapsto>
                     \<lparr> lastUpdate = Some (nowLoop tk), batcher = None, loader = None,
                       batcherRealtime = True, loaderRealtime = True \<rparr>),
                   batchersRealtime := batchersRealtime r @ [topic],
                   loadersRealtime := loadersRealtime r @
                     [KafkaLoaderTopicPrefix (Spec (rsk r)) @ ID grp @ ''-'' @ topic]\<rparr>,
               rts @ [topic])) \<and>
         (current topic = None \<longrightarrow>
            snd (calculateTopic dB dL allTopicsMap current tk topic (r, rts)) = rts)"
proof -
  note fe = fetchRealtimeInfo_error [OF f]
  then have sk: "sink = rsk r" by simp
  have r1: "r\<lparr>rsk := rsk r\<rparr> = r" by simp
  note ct = calculateTopic_miss [where allTopicsMap = allTopicsMap and dB = dB and dL = dL and current = current and rts = rts, OF g miss f, unfolded sk r1]
  have a: "calculateTopic dB dL allTopicsMap current tk topic (r, rts) =
              (r\<lparr>cache := (cache r)(topic \<mapsto>
                     \<lparr> lastUpdate = Some (nowLoop tk), batcher = None, loader = None,
                       batcherRealtime = True, loaderRealtime = True \<rparr>),
                   batchersRealtime := batchersRealtime r @ [topic],
                   loadersRealtime := loadersRealtime r @
                     [KafkaLoaderTopicPrefix (Spec (rsk r)) @ ID grp @ ''-'' @ topic]\<rparr>,
               rts @ [topic])" if "current topic \<noteq> None"
    using ct that by (simp add: Let_def)
  have b: "snd (calculateTopic dB dL allTopicsMap current tk topic (r, rts)) = rts"
    if n: "current topic = None"
  proof -
    obtain maxB maxL where ml: "maxLag dB dL r topic = (maxB, maxL)" by (metis prod.exhaust)
    obtain info1 r2 where bs: "batcherSide maxB topic info r = (info1, r2)" by (metis prod.exhaust)
    obtain info2 r3 where ls: "loaderSide maxL
        (KafkaLoaderTopicPrefix (Spec (rsk r)) @ ID grp @ ''-'' @ topic) info1 r2 = (info2, r3)"
      by (metis prod.exhaust)
    from fe obtain pos where p: "loader info = Some pos" "op_current pos = None"
      and nl: "\<not> loaderRealtime info" by auto
    from batcherSide_loader [OF bs] p nl
    have p1: "loader info1 = Some pos" and nl1: "\<not> loaderRealtime info1" by simp_all
    from loaderSide_no_current [OF p1 p(2) ls] nl1 have "\<not> loaderRealtime info2" by simp
    with ct n ml bs ls show ?thesis by (simp add: Let_def)
  qed
  from a b show ?thesis by blast
qed

lemma sameInputs_refl: "sameInputs r r"
  by (simp add: sameInputs_def)

lemma sameInputs_trans: "sameInputs r r1 \<Longrightarrow> sameInputs r1 r2 \<Longrightarrow> sameInputs r r2"
  by (simp add: sameInputs_def)

lemma fetchRealtimeInfo_frame:
  "fetchRealtimeInfo r tk topic lt grp = (res, sink) \<Longrightarrow>
   Name sink = Name (rsk r) \<and> Namespace sink = Namespace (rsk r) \<and> Spec sink = Spec (rsk r)"
  unfolding fetchRealtimeInfo_def Let_def updateTopicGroup_def
  by (auto split: sum.splits if_splits option.splits)

lemma batcherSide_frame:
  "batcherSide m t info r = (info', r') \<Longrightarrow>
   watcher r' = watcher r \<and> topicGroups r' = topicGroups r \<and> rsk r' = rsk r \<and> cache r' = cache r"
  unfolding batcherSide_def Let_def
  by (auto split: option.splits if_splits prod.splits)

lemma loaderSide_frame:
  "loaderSide m t info r = (info', r') \<Longrightarrow>
   watcher r' = watcher r \<and> topicGroups r' = topicGroups r \<and> rsk r' = rsk r \<and> cache r' = cache r"
  unfolding loaderSide_def Let_def
  by (auto split: option.splits if_splits prod.splits)

lemma calculateTopic_frame:
  assumes "calculateTopic dB dL atm cur tk t (r, rts) = (r', rts')"
  shows "sameInputs r r' \<and> (\<forall>x. x \<noteq> t \<longrightarrow> cache r' x = cache r x) \<and>
         (rts' = rts \<or> rts' = rts @ [t])"
proof (cases "topicGroups r t")
  case None
  with assms show ?thesis by (auto simp: calculateTopic_def sameInputs_def)
next
  case (Some grp)
  let ?lt = "KafkaLoaderTopicPrefix (Spec (rsk r)) @ ID grp @ ''-'' @ t"
  let ?lto = "findLoaderTopic atm ?lt"
  obtain cached hit where c: "fetchRealtimeCache r tk t = (cached, hit)" by (metis prod.exhaust)
  obtain info fe sink where f:
    "(if \<not> hit then fetchRealtimeInfo r tk t ?lto grp else ((cached, None), rsk r)) = ((info, fe), sink)"
    by (metis prod.exhaust)
  have sk: "Name sink = Name (rsk r) \<and> Namespace sink = Namespace (rsk r) \<and> Spec sink = Spec (rsk r)"
    using f fetchRealtimeInfo_frame [of r tk t ?lto grp "(info, fe)" sink]
    by (cases hit) auto
  obtain maxB maxL where ml: "maxLag dB dL (r\<lparr>rsk := sink\<rparr>) t = (maxB, maxL)" by (metis prod.exhaust)
  obtain info1 r2 where bs: "batcherSide maxB t info (r\<lparr>rsk := sink\<rparr>) = (info1, r2)"
    by (metis prod.exhaust)
  obtain info2 r3 where ls: "loaderSide maxL ?lt info1 r2 = (info2, r3)" by (metis prod.exhaust)
  note bf = batcherSide_frame [OF bs]
  note lf = loaderSide_frame [OF ls]
  have "(r', rts') =
     (if \<not> hit \<and> fe \<noteq> None \<and> cur t \<noteq> None
      then (r\<lparr>rsk := sink,
               cache := (cache r)(t \<mapsto>
                 \<lparr> lastUpdate = Some (nowLoop tk), batcher = None, loader = None,
                   batcherRealtime = True, loaderRealtime = True \<rparr>),
               batchersRealtime := batchersRealtime r @ [t],
               loadersRealtime := loadersRealtime r @ [?lt]\<rparr>,
            rts @ [t])
      else (r3\<lparr>cache := (cache r3)(t \<mapsto>
                   (if \<not> hit then info2\<lparr>lastUpdate := Some (nowLoop tk)\<rparr> else info2))\<rparr>,
            if batcherRealtime info2 \<and> loaderRealtime info2 then rts @ [t] else rts))"
  proof (cases hit)
    case True
    with f have "cached = info" "fe = None" "sink = rsk r" by simp_all
    with assms Some c True ml bs ls show ?thesis
      unfolding calculateTopic_def by (simp add: Let_def)
  next
    case False
    with f have "fetchRealtimeInfo r tk t ?lto grp = ((info, fe), sink)" by simp
    then have fi: "fetchRealtimeInfo r tk t ?lto grp = ((info, fe), sink)" .
    show ?thesis
    proof (cases "fe \<noteq> None \<and> cur t \<noteq> None")
      case True
      with assms Some c False fi show ?thesis
        unfolding calculateTopic_def by (simp add: Let_def)
    next
      case ne: False
      with assms Some c False fi ml bs ls show ?thesis
        unfolding calculateTopic_def by (auto simp: Let_def split: if_splits)
    qed
  qed
  with sk bf lf show ?thesis by (auto simp: sameInputs_def split: if_splits)
qed

lemma calculate_loop_frame:
  "calculate_loop dB dL atm cur ticks i ts (r, rts) = (r', rts') \<Longrightarrow>
   sameInputs r r' \<and> (\<forall>x. x \<notin> set ts \<longrightarrow> cache r' x = cache r x) \<and>
   (\<exists>xs. rts' = rts @ xs \<and> set xs \<subseteq> set ts)"
proof (induction ts arbitrary: i r rts)
  case Nil
  then show ?case by (simp add: sameInputs_refl)
next
  case (Cons t ts)
  obtain r1 rts1 where st: "calculateTopic dB dL atm cur (ticks i) t (r, rts) = (r1, rts1)"
    by (metis prod.exhaust)
  note f = calculateTopic_frame [OF st]
  from Cons.prems st have "calculate_loop dB dL atm cur ticks (Suc i) ts (r1, rts1) = (r', rts')"
    by simp
  note ih = Cons.IH [OF this]
  from f ih have "sameInputs r r'" by (blast intro: sameInputs_trans)
  moreover from f ih have "\<forall>x. x \<notin> set (t # ts) \<longrightarrow> cache r' x = cache r x" by simp
  moreover from f ih have "\<exists>xs. rts' = rts @ xs \<and> set xs \<subseteq> set (t # ts)" by auto
  ultimately show ?case by blast
qed

lemma calculate_loop_append:
  "calculate_loop dB dL atm cur ticks i (xs @ ys) st =
   calculate_loop dB dL atm cur ticks (i + length xs) ys (calculate_loop dB dL atm cur ticks i xs st)"
  by (induction xs arbitrary: i st) simp_all

lemma fetchRealtimeCache_cong:
  "cache r' topic = cache r topic \<Longrightarrow> fetchRealtimeCache r' tk topic = fetchRealtimeCache r tk topic"
  by (simp add: fetchRealtimeCache_def)

lemma fetchRealtimeInfo_cong:
  assumes "sameInputs r r'"
  shows "fst (fetchRealtimeInfo r' tk topic lt grp) = fst (fetchRealtimeInfo r tk topic lt grp)"
proof -
  from assms have w: "watcher r' = watcher r" and n: "Name (rsk r') = Name (rsk r)"
    and ns: "Namespace (rsk r') = Namespace (rsk r)" by (simp_all add: sameInputs_def)
  show ?thesis
    unfolding fetchRealtimeInfo_def Let_def w n ns
    by (simp split: sum.splits option.splits)
qed

lemma toMap_iff: "toMap xs t \<noteq> None \<longleftrightarrow> t \<in> set xs"
  by (induction xs) (auto simp: toMap_def)

lemma calculate_loop_fetch_error:
  assumes d: "distinct reloading" and i: "i < length reloading" and t: "reloading ! i = topic"
    and g: "topicGroups r topic = Some grp"
    and miss: "snd (fetchRealtimeCache r (ticks i) topic) = False"
    and fe: "snd (fst (fetchRealtimeInfo r (ticks i) topic
               (findLoaderTopic atm (KafkaLoaderTopicPrefix (Spec (rsk r)) @ ID grp @ ''-'' @ topic))
               grp)) = Some e"
    and res: "calculate_loop dB dL atm cur ticks 0 reloading (r, []) = (r', rts')"
  shows "(cur topic \<noteq> None \<longrightarrow>
            topic \<in> set rts' \<and> cache r' topic = Some (keptRealtime (nowLoop (ticks i)))) \<and>
         (cur topic = None \<longrightarrow> topic \<notin> set rts')"
proof -
  define pre where "pre = take i reloading"
  define post where "post = drop (Suc i) reloading"
  have split: "reloading = pre @ topic # post"
    unfolding pre_def post_def using i t by (metis id_take_nth_drop)
  have len: "length pre = i" unfolding pre_def using i by simp
  have "distinct (pre @ topic # post)" using d unfolding split [symmetric] .
  then have npre: "topic \<notin> set pre" and npost: "topic \<notin> set post" by auto
  obtain r1 rts1 where st1: "calculate_loop dB dL atm cur ticks 0 pre (r, []) = (r1, rts1)"
    by (metis prod.exhaust)
  from calculate_loop_frame [OF st1] npre
  have s1: "sameInputs r r1" and c1: "cache r1 topic = cache r topic" and n1: "topic \<notin> set rts1"
    by auto
  from s1 have g1: "topicGroups r1 topic = Some grp" and
    p1: "KafkaLoaderTopicPrefix (Spec (rsk r1)) = KafkaLoaderTopicPrefix (Spec (rsk r))"
    using g by (simp_all add: sameInputs_def)
  from miss have miss1: "snd (fetchRealtimeCache r1 (ticks i) topic) = False"
    by (simp add: fetchRealtimeCache_cong [OF c1])
  have fc: "fst (fetchRealtimeInfo r1 (ticks i) topic
      (findLoaderTopic atm (KafkaLoaderTopicPrefix (Spec (rsk r1)) @ ID grp @ ''-'' @ topic)) grp) =
    fst (fetchRealtimeInfo r (ticks i) topic
      (findLoaderTopic atm (KafkaLoaderTopicPrefix (Spec (rsk r)) @ ID grp @ ''-'' @ topic)) grp)"
    unfolding p1 by (rule fetchRealtimeInfo_cong [OF s1])
  obtain info e1 sink where f0: "fetchRealtimeInfo r1 (ticks i) topic
      (findLoaderTopic atm (KafkaLoaderTopicPrefix (Spec (rsk r1)) @ ID grp @ ''-'' @ topic)) grp
      = ((info, e1), sink)" by (metis prod.exhaust)
  from fc f0 fe have "e1 = Some e" by (metis fst_conv snd_conv)
  with f0 have f1: "fetchRealtimeInfo r1 (ticks i) topic
      (findLoaderTopic atm (KafkaLoaderTopicPrefix (Spec (rsk r1)) @ ID grp @ ''-'' @ topic)) grp
      = ((info, Some e), sink)" by simp
  obtain r2 rts2 where st2: "calculateTopic dB dL atm cur (ticks i) topic (r1, rts1) = (r2, rts2)"
    by (metis prod.exhaust)
  note step = calculateTopic_fetch_error [where allTopicsMap = atm and dB = dB and dL = dL
      and current = cur and rts = rts1, OF g1 miss1 f1]
  have "calculate_loop dB dL atm cur ticks 0 (pre @ topic # post) (r, []) =
          calculate_loop dB dL atm cur ticks (Suc i) post (r2, rts2)"
    using st1 st2 len by (simp add: calculate_loop_append)
  with res have st3: "calculate_loop dB dL atm cur ticks (Suc i) post (r2, rts2) = (r', rts')"
    unfolding split [symmetric] by simp
  from calculate_loop_frame [OF st3] npost
  obtain ys where c3: "cache r' topic = cache r2 topic" and r3: "rts' = rts2 @ ys"
    and ny: "topic \<notin> set ys" by auto
  show ?thesis
  proof (cases "cur topic = None")
    case True
    with step st2 have "rts2 = rts1" by simp
    with r3 n1 ny True show ?thesis by simp
  next
    case False
    with step st2 have "rts2 = rts1 @ [topic]" and
      "cache r2 topic = Some (keptRealtime (nowLoop (ticks i)))"
      by (simp_all add: keptRealtime_def)
    with r3 c3 False show ?thesis by simp
  qed
qed

lemma fetchRealtimeInfo_loader:
  assumes bl: "LastOffset (watcher r) topic 0 = Inr batcherLast"
    and bc: "CurrentOffset (watcher r)
               (consumerGroupID (Name (rsk r)) (Namespace (rsk r)) (ID grp) ''-batcher'') topic 0
             = Inr batcherCurrent"
    and nb: "batcherCurrent \<noteq> - 1"
    and ll: "LastOffset (watcher r) ltopic 0 = Inr loaderLast"
    and lc: "CurrentOffset (watcher r)
               (consumerGroupID (Name (rsk r)) (Namespace (rsk r)) (ID grp) ''-loader'') ltopic 0
             = Inr loaderCurrent"
  shows "fetchRealtimeInfo r tk topic (Some ltopic) grp =
     (if loaderCurrent = - 1 then
        ((fetchedInfo (nowFetch tk) batcherLast (Some batcherCurrent) loaderLast
            (LoaderCurrentOffset grp), None), rsk r)
      else
        ((fetchedInfo (nowFetch tk) batcherLast (Some batcherCurrent) loaderLast
            (Some loaderCurrent), None),
         updateTopicGroup (rsk r) topic (grp\<lparr>LoaderCurrentOffset := Some loaderCurrent\<rparr>)))"
  using assms unfolding fetchRealtimeInfo_def fetchedInfo_def Let_def
  by (simp split: option.splits)

lemma sides_of_fetchedInfo:
  assumes bs: "batcherSide maxB topic (fetchedInfo now bl (Some bc) ll lc) r = (info1, r2)"
    and ls: "loaderSide maxL ltopic info1 r2 = (info2, r3)"
  shows "batcherRealtime info2 = word_sle (bl - bc) maxB \<and>
         loaderRealtime info2 = (case lc of None \<Rightarrow> False | Some c \<Rightarrow> word_sle (ll - c) maxL)"
proof -
  from bs have i1: "info1 = (fetchedInfo now bl (Some bc) ll lc)\<lparr>batcherRealtime := word_sle (bl - bc) maxB\<rparr>"
    unfolding batcherSide_def fetchedInfo_def Let_def by (auto split: if_splits)
  from ls show ?thesis unfolding i1 loaderSide_def fetchedInfo_def Let_def
    by (cases lc) (auto split: if_splits)
qed

lemma calculateTopic_loader_gone:
  assumes g: "topicGroups r topic = Some grp"
    and miss: "snd (fetchRealtimeCache r tk topic) = False"
    and lt: "ltopic = KafkaLoaderTopicPrefix (Spec (rsk r)) @ ID grp @ ''-'' @ topic"
    and at: "allTopicsMap ltopic \<noteq> None"
    and bl: "LastOffset (watcher r) topic 0 = Inr batcherLast"
    and bc: "CurrentOffset (watcher r)
               (consumerGroupID (Name (rsk r)) (Namespace (rsk r)) (ID grp) ''-batcher'') topic 0
             = Inr batcherCurrent"
    and nb: "batcherCurrent \<noteq> - 1"
    and ll: "LastOffset (watcher r) ltopic 0 = Inr loaderLast"
    and lc: "CurrentOffset (watcher r)
               (consumerGroupID (Name (rsk r)) (Namespace (rsk r)) (ID grp) ''-loader'') ltopic 0
             = Inr (- 1)"
  shows "snd (calculateTopic dB dL allTopicsMap current tk topic (r, rts)) =
           (if word_sle (batcherLast - batcherCurrent) (fst (maxLag dB dL r topic)) \<and>
               (case LoaderCurrentOffset grp of
                  None \<Rightarrow> False
                | Some persisted \<Rightarrow> word_sle (loaderLast - persisted) (snd (maxLag dB dL r topic)))
            then rts @ [topic] else rts)"
proof -
  have fl: "findLoaderTopic allTopicsMap
              (KafkaLoaderTopicPrefix (Spec (rsk r)) @ ID grp @ ''-'' @ topic) = Some ltopic"
    using at lt by (simp add: findLoaderTopic_def)
  have f: "fetchRealtimeInfo r tk topic
             (findLoaderTopic allTopicsMap
                (KafkaLoaderTopicPrefix (Spec (rsk r)) @ ID grp @ ''-'' @ topic)) grp =
           ((fetchedInfo (nowFetch tk) batcherLast (Some batcherCurrent) loaderLast
               (LoaderCurrentOffset grp), None), rsk r)"
    unfolding fl using fetchRealtimeInfo_loader [OF bl bc nb ll lc, of tk] by simp
  have r1: "r\<lparr>rsk := rsk r\<rparr> = r" by simp
  note ct = calculateTopic_miss [where allTopicsMap = allTopicsMap and dB = dB and dL = dL
      and current = current and rts = rts, OF g miss f, unfolded r1]
  obtain maxB maxL where ml: "maxLag dB dL r topic = (maxB, maxL)" by (metis prod.exhaust)
  obtain info1 r2 where bs: "batcherSide maxB topic
      (fetchedInfo (nowFetch tk) batcherLast (Some batcherCurrent) loaderLast
         (LoaderCurrentOffset grp)) r = (info1, r2)" by (metis prod.exhaust)
  obtain info2 r3 where ls: "loaderSide maxL ltopic info1 r2 = (info2, r3)" by (metis prod.exhaust)
  note sd = sides_of_fetchedInfo [OF bs ls]
  from ct ml bs ls [unfolded lt] sd show ?thesis
    by (cases "LoaderCurrentOffset grp") (simp_all add: Let_def)
qed

text \<open>
  C4. Let the probe of a topic reach the loader group's current offset: the batcher
  queries succeed with a current offset other than \<open>-1\<close>, the loader topic exists and
  its last offset is fetched. If the loader query returns \<open>-1\<close>, the info carries the
  persisted \<open>LoaderCurrentOffset\<close> of the group as the loader's current offset (none
  when the group has none) and the sink object is left as it is; the iteration of
  \<open>calculate\<close> that fetched it takes the topic as realtime exactly when both lags are
  within their limits, the loader lag being computed from the persisted offset, and
  never when there is no persisted offset. If the query returns another value, that
  value is the loader's current offset and is written to the topic's group in the status
  of the sink object.
\<close>

theorem loader_current_offset_fallback:
  assumes "LastOffset (watcher r) topic 0 = Inr batcherLast"
    and "CurrentOffset (watcher r)
           (consumerGroupID (Name (rsk r)) (Namespace (rsk r)) (ID grp) ''-batcher'') topic 0
         = Inr batcherCurrent"
    and "batcherCurrent \<noteq> - 1"
    and "LastOffset (watcher r) ltopic 0 = Inr loaderLast"
    and "CurrentOffset (watcher r)
           (consumerGroupID (Name (rsk r)) (Namespace (rsk r)) (ID grp) ''-loader'') ltopic 0
         = Inr loaderCurrent"
  shows "(loaderCurrent = - 1 \<longrightarrow>
            fetchRealtimeInfo r tk topic (Some ltopic) grp =
              ((fetchedInfo (nowFetch tk) batcherLast (Some batcherCurrent) loaderLast
                  (LoaderCurrentOffset grp), None), rsk r)) \<and>
         (loaderCurrent = - 1 \<and> topicGroups r topic = Some grp \<and>
          snd (fetchRealtimeCache r tk topic) = False \<and>
          ltopic = KafkaLoaderTopicPrefix (Spec (rsk r)) @ ID grp @ ''-'' @ topic \<and>
          allTopicsMap ltopic \<noteq> None \<longrightarrow>
            snd (calculateTopic dB dL allTopicsMap current tk topic (r, rts)) =
              (if word_sle (batcherLast - batcherCurrent) (fst (maxLag dB dL r topic)) \<and>
                  (case LoaderCurrentOffset grp of
                     None \<Rightarrow> False
                   | Some persisted \<Rightarrow>
                       word_sle (loaderLast - persisted) (snd (maxLag dB dL r topic)))
               then rts @ [topic] else rts)) \<and>
         (loaderCurrent \<noteq> - 1 \<longrightarrow>
            fetchRealtimeInfo r tk topic (Some ltopic) grp =
              ((fetchedInfo (nowFetch tk) batcherLast (Some batcherCurrent) loaderLast
                  (Some loaderCurrent), None),
               updateTopicGroup (rsk r) topic (grp\<lparr>LoaderCurrentOffset := Some loaderCurrent\<rparr>)) \<and>
            (\<exists>m. TopicGroup (Status (snd (fetchRealtimeInfo r tk topic (Some ltopic) grp))) = Some m \<and>
                 m topic = Some (grp\<lparr>LoaderCurrentOffset := Some loaderCurrent\<rparr>)))"
proof (intro conjI impI)
  assume "loaderCurrent = - 1"
  with fetchRealtimeInfo_loader [OF assms, of tk]
  show "fetchRealtimeInfo r tk topic (Some ltopic) grp =
              ((fetchedInfo (nowFetch tk) batcherLast (Some batcherCurrent) loaderLast
                  (LoaderCurrentOffset grp), None), rsk r)" by simp
next
  assume a: "loaderCurrent = - 1 \<and> topicGroups r topic = Some grp \<and>
          snd (fetchRealtimeCache r tk topic) = False \<and>
          ltopic = KafkaLoaderTopicPrefix (Spec (rsk r)) @ ID grp @ ''-'' @ topic \<and>
          allTopicsMap ltopic \<noteq> None"
  then have lc: "CurrentOffset (watcher r)
           (consumerGroupID (Name (rsk r)) (Namespace (rsk r)) (ID grp) ''-loader'') ltopic 0
         = Inr (- 1)" using assms(5) by simp
  from a show "snd (calculateTopic dB dL allTopicsMap current tk topic (r, rts)) =
              (if word_sle (batcherLast - batcherCurrent) (fst (maxLag dB dL r topic)) \<and>
                  (case LoaderCurrentOffset grp of
                     None \<Rightarrow> False
                   | Some persisted \<Rightarrow>
                       word_sle (loaderLast - persisted) (snd (maxLag dB dL r topic)))
               then rts @ [topic] else rts)"
    by (intro calculateTopic_loader_gone [OF _ _ _ _ assms(1,2,3,4) lc]) auto
next
  assume n: "loaderCurrent \<noteq> - 1"
  with fetchRealtimeInfo_loader [OF assms, of tk]
  show f: "fetchRealtimeInfo r tk topic (Some ltopic) grp =
              ((fetchedInfo (nowFetch tk) batcherLast (Some batcherCurrent) loaderLast
                  (Some loaderCurrent), None),
               updateTopicGroup (rsk r) topic (grp\<lparr>LoaderCurrentOffset := Some loaderCurrent\<rparr>))"
    by simp
  show "\<exists>m. TopicGroup (Status (snd (fetchRealtimeInfo r tk topic (Some ltopic) grp))) = Some m \<and>
                 m topic = Some (grp\<lparr>LoaderCurrentOffset := Some loaderCurrent\<rparr>)"
    unfolding f by (simp add: updateTopicGroup_def)
qed

theorem loader_current_offset_fallback_witness:
  "LastOffset (watcher (scenario_calculator (Inr (- 1)) (Some 5000) Map.empty)) ''orders'' 0 = Inr 1000 \<and>
   (990 :: int64) \<noteq> - 1 \<and>
   snd (fetchRealtimeCache (scenario_calculator (Inr (- 1)) (Some 5000) Map.empty)
          (scenario_tick 7) ''orders'') = False \<and>
   toMap [''orders'', ''loader-reload-orders''] ''loader-reload-orders'' \<noteq> None \<and>
   fetchRealtimeInfo (scenario_calculator (Inr (- 1)) (Some 5000) Map.empty) (scenario_tick 7)
     ''orders'' (Some ''loader-reload-orders'') (scenario_group (Some 5000)) =
     ((fetchedInfo 7 1000 (Some 990) 5050 (Some 5000), None),
      rsk (scenario_calculator (Inr (- 1)) (Some 5000) Map.empty)) \<and>
   snd (calculateTopic 0 0 (toMap [''orders'', ''loader-reload-orders'']) (toMap [])
          (scenario_tick 7) ''orders''
          (scenario_calculator (Inr (- 1)) (Some 5000) Map.empty, [])) = [''orders''] \<and>
   snd (calculateTopic 0 0 (toMap [''orders'', ''loader-reload-orders'']) (toMap [])
          (scenario_tick 7) ''orders''
          (scenario_calculator (Inr (- 1)) None Map.empty, [])) = [] \<and>
   (\<exists>m. TopicGroup (Status (snd (fetchRealtimeInfo
            (scenario_calculator (Inr 5040) None Map.empty) (scenario_tick 7) ''orders''
            (Some ''loader-reload-orders'') (scenario_group None)))) = Some m \<and>
        m ''orders'' = Some ((scenario_group None)\<lparr>LoaderCurrentOffset := Some 5040\<rparr>))"
proof -
  let ?atm = "toMap [''orders'', ''loader-reload-orders'']"
  have n: "(990 :: int64) \<noteq> - 1" by simp
  have n2: "(5040 :: int64) \<noteq> - 1" by simp
  have miss: "snd (fetchRealtimeCache (scenario_calculator lc p Map.empty) (scenario_tick 7) ''orders'') = False"
    for lc p by (simp add: fetchRealtimeCache_def scenario_queries)
  have at: "?atm ''loader-reload-orders'' \<noteq> None" by (simp add: toMap_def)
  note q1 = scenario_queries [where lc = "Inr (- 1)" and p = "Some 5000" and cch = Map.empty]
  note q2 = scenario_queries [where lc = "Inr (- 1)" and p = None and cch = Map.empty]
  note q3 = scenario_queries [where lc = "Inr 5040" and p = None and cch = Map.empty]
  note th1 = loader_current_offset_fallback [where topic = "''orders''"
      and ltopic = "''loader-reload-orders''"
      and tk = "scenario_tick 7" and dB = 0 and dL = 0 and allTopicsMap = ?atm
      and current = "toMap []" and rts = "[]", OF q1(1) q1(2) n q1(3) q1(4)]
  note th2 = loader_current_offset_fallback [where topic = "''orders''"
      and ltopic = "''loader-reload-orders''"
      and tk = "scenario_tick 7" and dB = 0 and dL = 0 and allTopicsMap = ?atm
      and current = "toMap []" and rts = "[]", OF q2(1) q2(2) n q2(3) q2(4)]
  note th3 = loader_current_offset_fallback [where topic = "''orders''"
      and ltopic = "''loader-reload-orders''"
      and tk = "scenario_tick 7" and dB = 0 and dL = 0 and allTopicsMap = ?atm
      and current = "toMap []" and rts = "[]", OF q3(1) q3(2) n q3(3) q3(4)]
  from th1 [THEN conjunct1]
  have a: "fetchRealtimeInfo (scenario_calculator (Inr (- 1)) (Some 5000) Map.empty) (scenario_tick 7)
     ''orders'' (Some ''loader-reload-orders'') (scenario_group (Some 5000)) =
     ((fetchedInfo 7 1000 (Some 990) 5050 (Some 5000), None),
      rsk (scenario_calculator (Inr (- 1)) (Some 5000) Map.empty))"
    by (simp add: scenario_tick_def scenario_group_def)
  from th1 [THEN conjunct2, THEN conjunct1] miss at
  have b: "snd (calculateTopic 0 0 ?atm (toMap []) (scenario_tick 7) ''orders''
          (scenario_calculator (Inr (- 1)) (Some 5000) Map.empty, [])) = [''orders'']"
    by (simp add: q1 scenario_group_def)
  from th2 [THEN conjunct2, THEN conjunct1] miss at
  have c: "snd (calculateTopic 0 0 ?atm (toMap []) (scenario_tick 7) ''orders''
          (scenario_calculator (Inr (- 1)) None Map.empty, [])) = []"
    by (simp add: q2 scenario_group_def)
  from th3 [THEN conjunct2, THEN conjunct2] n2
  have d: "\<exists>m. TopicGroup (Status (snd (fetchRealtimeInfo
            (scenario_calculator (Inr 5040) None Map.empty) (scenario_tick 7) ''orders''
            (Some ''loader-reload-orders'') (scenario_group None)))) = Some m \<and>
        m ''orders'' = Some ((scenario_group None)\<lparr>LoaderCurrentOffset := Some 5040\<rparr>)"
    by blast
  from scenario_queries(1) n miss at a b c d show ?thesis by blast
qed

text \<open>
  C5. Let \<open>reloading\<close> name each topic once, let the bus list its topics, and let the
  iteration of a reloading topic that has a topic group miss the cache and get an error
  from \<open>fetchRealtimeInfo\<close>. If the topic is in \<open>currentRealtime\<close>, it is in the list
  \<open>calculate\<close> returns and its cache entry is the one with both realtime flags set
  and the time of the iteration; if it is not, it is not in the returned list.
  \<open>calculate\<close> returns the list and nothing else: no error reaches the caller.
\<close>

theorem fetch_error_keeps_previous_realtime:
  assumes "distinct reloading" and "i < length reloading" and "reloading ! i = topic"
    and "Topics (watcher r) = Inr allTopics"
    and "topicGroups r topic = Some grp"
    and "snd (fetchRealtimeCache r (ticks i) topic) = False"
    and "snd (fst (fetchRealtimeInfo r (ticks i) topic
           (findLoaderTopic (toMap allTopics)
              (KafkaLoaderTopicPrefix (Spec (rsk r)) @ ID grp @ ''-'' @ topic)) grp)) = Some e"
  shows "(topic \<in> set currentRealtime \<longrightarrow>
            topic \<in> set (fst (calculate dB dL r ticks reloading currentRealtime)) \<and>
            cache (snd (calculate dB dL r ticks reloading currentRealtime)) topic =
              Some (keptRealtime (nowLoop (ticks i)))) \<and>
         (topic \<notin> set currentRealtime \<longrightarrow>
            topic \<notin> set (fst (calculate dB dL r ticks reloading currentRealtime)))"
proof -
  obtain r' rts' where res: "calculate_loop dB dL (toMap allTopics) (toMap currentRealtime)
      ticks 0 reloading (r, []) = (r', rts')" by (metis prod.exhaust)
  from assms(2) have ne: "length reloading \<noteq> 0" by auto
  have c: "calculate dB dL r ticks reloading currentRealtime = (rts', r')"
    using ne assms(4) res by (simp add: calculate_def Let_def)
  from calculate_loop_fetch_error [OF assms(1,2,3,5,6,7) res] show ?thesis
    unfolding c by (simp add: toMap_iff [symmetric])
qed

theorem fetch_error_keeps_previous_realtime_witness:
  "distinct [''orders''] \<and> (0 :: nat) < length [''orders''] \<and> [''orders''] ! 0 = ''orders'' \<and>
   snd (fetchRealtimeCache (scenario_calculator (Inl ''coordinator not available'') None Map.empty)
          (scenario_tick 7) ''orders'') = False \<and>
   snd (fst (fetchRealtimeInfo (scenario_calculator (Inl ''coordinator not available'') None Map.empty)
          (scenario_tick 7) ''orders''
          (findLoaderTopic (toMap [''orders'', ''loader-reload-orders'']) ''loader-reload-orders'')
          (scenario_group None))) = Some (ErrExternal ''coordinator not available'') \<and>
   ''orders'' \<in> set (fst (calculate 0 0
        (scenario_calculator (Inl ''coordinator not available'') None Map.empty)
        (\<lambda>i. scenario_tick 7) [''orders''] [''orders''])) \<and>
   ''orders'' \<notin> set (fst (calculate 0 0
        (scenario_calculator (Inl ''coordinator not available'') None Map.empty)
        (\<lambda>i. scenario_tick 7) [''orders''] []))"
proof -
  let ?r = "scenario_calculator (Inl ''coordinator not available'') None Map.empty"
  note q = scenario_queries [where lc = "Inl ''coordinator not available''" and p = None
      and cch = Map.empty]
  have d: "distinct [''orders'']" "(0 :: nat) < length [''orders'']" "[''orders''] ! 0 = ''orders''"
    by simp_all
  have miss: "snd (fetchRealtimeCache ?r ((\<lambda>i. scenario_tick 7) (0 :: nat)) ''orders'') = False"
    by (simp add: fetchRealtimeCache_def q)
  have fl: "findLoaderTopic (toMap [''orders'', ''loader-reload-orders'']) ''loader-reload-orders''
      = Some ''loader-reload-orders''" by (simp add: findLoaderTopic_def toMap_def)
  have fe: "snd (fst (fetchRealtimeInfo ?r ((\<lambda>i. scenario_tick 7) (0 :: nat)) ''orders''
          (findLoaderTopic (toMap [''orders'', ''loader-reload-orders''])
             (KafkaLoaderTopicPrefix (Spec (rsk ?r)) @ ID (scenario_group None) @ ''-'' @ ''orders''))
          (scenario_group None))) = Some (ErrExternal ''coordinator not available'')"
    unfolding q(6) fl by (simp add: fetchRealtimeInfo_def Let_def q)
  note th = fetch_error_keeps_previous_realtime [where dB = 0 and dL = 0, OF d q(8) q(5) miss fe]
  from th [of "[''orders'']"] have a: "''orders'' \<in> set (fst (calculate 0 0 ?r
        (\<lambda>i. scenario_tick 7) [''orders''] [''orders'']))" by simp
  from th [of "[]"] have b: "''orders'' \<notin> set (fst (calculate 0 0 ?r
        (\<lambda>i. scenario_tick 7) [''orders''] []))" by simp
  from fe have fe': "snd (fst (fetchRealtimeInfo ?r (scenario_tick 7) ''orders''
          (findLoaderTopic (toMap [''orders'', ''loader-reload-orders'']) ''loader-reload-orders'')
          (scenario_group None))) = Some (ErrExternal ''coordinator not available'')"
    unfolding q(6) by simp
  from d miss fe' a b show ?thesis by simp
qed

section \<open>Claims on the topic manager and the batcher binary\<close>

text \<open>
  C8, as amended. A pass of the loop of \<open>Manager.Consume\<close> that has topics calls the
  consumer group's \<open>Consume\<close>. If that call returns an error, whatever its kind, the
  manager ends the process with a fatal log and makes no further call. If it returns
  without error, the manager returns when the context is cancelled and otherwise goes
  round the loop again. A pass without topics sleeps and goes round again.
\<close>

theorem manager_consume_error_is_fatal:
  "(topicsNow p \<noteq> [] \<and> consumeErr p = Some e \<longrightarrow>
      Manager_Consume (p # rest) = ([ConsumeCall (topicsNow p)], ManagerFatal e)) \<and>
   (topicsNow p \<noteq> [] \<and> consumeErr p = None \<and> ctxErr p \<longrightarrow>
      Manager_Consume (p # rest) = ([ConsumeCall (topicsNow p)], ManagerReturned)) \<and>
   (topicsNow p \<noteq> [] \<and> consumeErr p = None \<and> \<not> ctxErr p \<longrightarrow>
      Manager_Consume (p # rest) =
        (ConsumeCall (topicsNow p) # fst (Manager_Consume rest), snd (Manager_Consume rest))) \<and>
   (topicsNow p = [] \<longrightarrow>
      Manager_Consume (p # rest) =
        (Sleep5 # fst (Manager_Consume rest), snd (Manager_Consume rest)))"
  by (simp add: Let_def split: prod.splits)

theorem manager_consume_error_is_fatal_witness:
  "topicsNow \<lparr> topicsNow = [''orders''], consumeErr = None, ctxErr = False \<rparr> \<noteq> [] \<and>
   consumeErr \<lparr> topicsNow = [''orders''], consumeErr = Some ''EOF'', ctxErr = False \<rparr> = Some ''EOF'' \<and>
   Manager_Consume
     [\<lparr> topicsNow = [''orders''], consumeErr = None, ctxErr = False \<rparr>,
      \<lparr> topicsNow = [''orders''], consumeErr = Some ''EOF'', ctxErr = False \<rparr>,
      \<lparr> topicsNow = [''orders''], consumeErr = None, ctxErr = False \<rparr>] =
   ([ConsumeCall [''orders''], ConsumeCall [''orders'']], ManagerFatal ''EOF'')"
proof -
  let ?ok = "\<lparr> topicsNow = [''orders''], consumeErr = None, ctxErr = False \<rparr>"
  let ?bad = "\<lparr> topicsNow = [''orders''], consumeErr = Some ''EOF'', ctxErr = False \<rparr>"
  have a: "topicsNow ?ok \<noteq> []" "consumeErr ?ok = None" "\<not> ctxErr ?ok" by simp_all
  have b: "topicsNow ?bad \<noteq> []" "consumeErr ?bad = Some ''EOF''" by simp_all
  from manager_consume_error_is_fatal [of ?bad "''EOF''" "[?ok]", THEN conjunct1] b
  have 1: "Manager_Consume [?bad, ?ok] = ([ConsumeCall [''orders'']], ManagerFatal ''EOF'')"
    by simp
  from manager_consume_error_is_fatal [of ?ok "''EOF''" "[?bad, ?ok]",
      THEN conjunct2, THEN conjunct2, THEN conjunct1] a
  have "Manager_Consume [?ok, ?bad, ?ok] =
      (ConsumeCall [''orders''] # fst (Manager_Consume [?bad, ?ok]), snd (Manager_Consume [?bad, ?ok]))"
    by simp
  with 1 have "Manager_Consume [?ok, ?bad, ?ok] =
      ([ConsumeCall [''orders''], ConsumeCall [''orders'']], ManagerFatal ''EOF'')"
    by simp
  with a(1) b(2) show ?thesis by simp
qed

text \<open>
  The claim as it stands fails on any error of \<open>Consume\<close>: after a pass whose
  \<open>Consume\<close> returns a connection error, the manager has made one call and the process
  has ended; the pass that would follow is never made.
\<close>

theorem manager_consume_no_reentry_counterexample:
  "Manager_Consume
     [\<lparr> topicsNow = [''orders''], consumeErr = Some ''read tcp: connection reset by peer'',
        ctxErr = False \<rparr>,
      \<lparr> topicsNow = [''orders''], consumeErr = None, ctxErr = False \<rparr>] =
   ([ConsumeCall [''orders'']], ManagerFatal ''read tcp: connection reset by peer'')"
  by simp

text \<open>
  C9. \<open>run\<close> starts the loop over the configured groups with the map \<open>consumerGroups\<close>
  nil. With at least one group configured, the loop never ends normally: it exits with
  status 1 when the client of the first group cannot be made, and otherwise the
  assignment \<open>consumerGroups[groupID] = consumerGroup\<close> of the first group is on the nil
  map and panics, before any manager is started.
\<close>

theorem run_registration_faults_on_nil_map:
  "mapAssign None groupID consumerGroup = Inl PanicNilMapAssign \<and>
   (configConsumerGroups \<noteq> [] \<longrightarrow>
      (\<forall>st. run_register (Inr configConsumerGroups) NewConsumerGroup \<noteq> Inr st) \<and>
      (\<forall>cg. NewConsumerGroup (hd configConsumerGroups) = Inr cg \<longrightarrow>
         run_register (Inr configConsumerGroups) NewConsumerGroup = Inl PanicNilMapAssign) \<and>
      (\<forall>e. NewConsumerGroup (hd configConsumerGroups) = Inl e \<longrightarrow>
         run_register (Inr configConsumerGroups) NewConsumerGroup = Inl (OsExit 1)))"
proof (intro conjI impI allI)
  show "mapAssign None groupID consumerGroup = Inl PanicNilMapAssign"
    by (simp add: mapAssign_def)
next
  fix st
  assume "configConsumerGroups \<noteq> []"
  then obtain gc rest where "configConsumerGroups = gc # rest" by (cases configConsumerGroups) auto
  then show "run_register (Inr configConsumerGroups) NewConsumerGroup \<noteq> Inr st"
    by (cases "NewConsumerGroup gc") (simp_all add: run_register_def mapAssign_def Let_def)
next
  fix cg
  assume "configConsumerGroups \<noteq> []" and n: "NewConsumerGroup (hd configConsumerGroups) = Inr cg"
  then obtain gc rest where "configConsumerGroups = gc # rest" by (cases configConsumerGroups) auto
  with n show "run_register (Inr configConsumerGroups) NewConsumerGroup = Inl PanicNilMapAssign"
    by (simp add: run_register_def mapAssign_def Let_def)
next
  fix e
  assume "configConsumerGroups \<noteq> []" and n: "NewConsumerGroup (hd configConsumerGroups) = Inl e"
  then obtain gc rest where "configConsumerGroups = gc # rest" by (cases configConsumerGroups) auto
  with n show "run_register (Inr configConsumerGroups) NewConsumerGroup = Inl (OsExit 1)"
    by (simp add: run_register_def)
qed

theorem run_registration_faults_on_nil_map_witness:
  "[\<lparr> GroupID = ''g1'', TopicRegexes = ''^orders'' \<rparr>] \<noteq> [] \<and>
   run_register (Inr [\<lparr> GroupID = ''g1'', TopicRegexes = ''^orders'' \<rparr>])
     (\<lambda>gc. Inr (GroupID gc)) = (Inl PanicNilMapAssign :: runFault + string runState)"
proof -
  let ?cfg = "[\<lparr> GroupID = ''g1'', TopicRegexes = ''^orders'' \<rparr>]"
  have ne: "?cfg \<noteq> []" by simp
  have n: "(\<lambda>gc. Inr (GroupID gc) :: string + string) (hd ?cfg) = Inr ''g1''" by simp
  from run_registration_faults_on_nil_map [of "''g1''" "''g1''" ?cfg "\<lambda>gc. Inr (GroupID gc)",
      THEN conjunct2, rule_format, OF ne, THEN conjunct2, THEN conjunct1, rule_format, OF n]
  have "run_register (Inr ?cfg) (\<lambda>gc. Inr (GroupID gc)) =
          (Inl PanicNilMapAssign :: runFault + string runState)" .
  with ne show ?thesis by simp
qed

end
